theory Spec2Isabelle
  imports Main "HOL-Library.Word"
begin

section \<open>Strings and values of the host language\<close>

text \<open>
  A JavaScript string is a sequence of 16-bit code units. ASCII literals of the source
  are written through \<open>js\<close>; the other literals are given by their code units.
\<close>

type_synonym jschar = "16 word"
type_synonym jsstring = "jschar list"

definition js :: "string \<Rightarrow> jsstring" where
  "js s = map of_char s"

text \<open>
  \<open>String.prototype.trim\<close> removes the code units that are WhiteSpace or
  LineTerminator from both ends.
\<close>

definition is_white_space :: "jschar \<Rightarrow> bool" where
  "is_white_space c \<longleftrightarrow>
     c = 0x09 \<or> c = 0x0A \<or> c = 0x0B \<or> c = 0x0C \<or> c = 0x0D \<or> c = 0x20 \<or> c = 0xA0
     \<or> c = 0x1680 \<or> (0x2000 \<le> c \<and> c \<le> 0x200A) \<or> c = 0x2028 \<or> c = 0x2029
     \<or> c = 0x202F \<or> c = 0x205F \<or> c = 0x3000 \<or> c = 0xFEFF"

definition trim :: "jsstring \<Rightarrow> jsstring" where
  "trim s = rev (dropWhile is_white_space (rev (dropWhile is_white_space s)))"

text \<open>The decimal digits of a natural number: what \<open>${idx+1}\<close> prints.\<close>

fun dec :: "nat \<Rightarrow> jsstring" where
  "dec n = (if n < 10 then [0x30 + of_nat n] else dec (n div 10) @ [0x30 + of_nat (n mod 10)])"

declare dec.simps [simp del]

datatype error = SyntaxError | TypeError

text \<open>
  The values \<open>JSON.parse\<close> can return. An object is the list of its own properties
  in the order in which the language enumerates them. A number is kept as the text of
  its literal: the rounding of the literal to a double and the printing of a double are
  floating point and are not modelled, so \<open>JNum\<close> is printed as it was read.
\<close>

datatype json = JNull | JBool bool | JNum jsstring | JStr jsstring
  | JArr "json list" | JObj "(jsstring \<times> json) list"

fun join_comma :: "jsstring list \<Rightarrow> jsstring" where
  "join_comma [] = []"
| "join_comma [x] = x"
| "join_comma (x # y # r) = x @ 0x2C # join_comma (y # r)"

subsection \<open>Property reads and string conversion\<close>

text \<open>
  \<open>item.text\<close> and \<open>item.date\<close>: reading a property of \<open>null\<close> throws; an object
  yields its own property, and every other case falls through to a prototype that
  defines neither name, which gives \<open>undefined\<close> (here \<open>None\<close>).
\<close>

definition get_prop :: "json \<Rightarrow> jsstring \<Rightarrow> error + json option" where
  "get_prop v k =
     (case v of
        JNull \<Rightarrow> Inl TypeError
      | JObj ps \<Rightarrow> Inr (map_of ps k)
      | _ \<Rightarrow> Inr None)"

text \<open>
  \<open>ToString\<close>, as a template literal applies it. An array joins its elements with
  commas, \<open>null\<close> elements printing as the empty string. A plain object prints through
  \<open>Object.prototype.toString\<close> unless an own property \<open>toString\<close> (never callable in
  parsed data) shadows it, in which case the conversion throws.
\<close>

fun ToString :: "json \<Rightarrow> error + jsstring"
  and join_elems :: "json list \<Rightarrow> error + jsstring list"
where
  "ToString JNull = Inr (js ''null'')"
| "ToString (JBool b) = Inr (if b then js ''true'' else js ''false'')"
| "ToString (JNum l) = Inr l"
| "ToString (JStr s) = Inr s"
| "ToString (JArr xs) =
     (case join_elems xs of Inl e \<Rightarrow> Inl e | Inr ss \<Rightarrow> Inr (join_comma ss))"
| "ToString (JObj ps) =
     (if map_of ps (js ''toString'') = None then Inr (js ''[object Object]'')
      else Inl TypeError)"
| "join_elems [] = Inr []"
| "join_elems (x # xs) =
     (case (case x of JNull \<Rightarrow> Inr [] | _ \<Rightarrow> ToString x) of
        Inl e \<Rightarrow> Inl e
      | Inr s \<Rightarrow> (case join_elems xs of Inl e \<Rightarrow> Inl e | Inr ss \<Rightarrow> Inr (s # ss)))"

definition template_subst :: "json option \<Rightarrow> error + jsstring" where
  "template_subst v = (case v of None \<Rightarrow> Inr (js ''undefined'') | Some x \<Rightarrow> ToString x)"

subsection \<open>Array operations\<close>

text \<open>\<open>data.push(x)\<close>: only an array has the method.\<close>

definition push :: "json \<Rightarrow> json \<Rightarrow> error + json" where
  "push data x = (case data of JArr xs \<Rightarrow> Inr (JArr (xs @ [x])) | _ \<Rightarrow> Inl TypeError)"

text \<open>
  \<open>Array.prototype.splice(start, deleteCount)\<close> with no inserted items: a negative
  start counts from the end, and both bounds are clamped to the array.
\<close>

definition splice :: "int \<Rightarrow> int \<Rightarrow> 'a list \<Rightarrow> 'a list" where
  "splice start deleteCount xs =
     (let len = int (length xs);
          actualStart = (if start < 0 then max (len + start) 0 else min start len);
          actualDeleteCount = min (max deleteCount 0) (len - actualStart)
      in take (nat actualStart) xs @ drop (nat (actualStart + actualDeleteCount)) xs)"

section \<open>JSON.stringify\<close>

definition hex_digit :: "nat \<Rightarrow> jschar" where
  "hex_digit n = (if n < 10 then 0x30 + of_nat n else 0x57 + of_nat n)"

definition unicode_escape :: "jschar \<Rightarrow> jsstring" where
  "unicode_escape c =
     [0x5C, 0x75, hex_digit (unat c div 4096), hex_digit (unat c div 256 mod 16),
      hex_digit (unat c div 16 mod 16), hex_digit (unat c mod 16)]"

definition is_lead :: "jschar \<Rightarrow> bool" where
  "is_lead c \<longleftrightarrow> 0xD800 \<le> c \<and> c \<le> 0xDBFF"

definition is_trail :: "jschar \<Rightarrow> bool" where
  "is_trail c \<longleftrightarrow> 0xDC00 \<le> c \<and> c \<le> 0xDFFF"

text \<open>
  One code point that is a single code unit: the short escapes, \<open>\u\<close> escapes for the
  other control characters and for a surrogate that has no partner, the unit itself
  otherwise.
\<close>

definition quote_unit :: "jschar \<Rightarrow> jsstring" where
  "quote_unit c =
     (if c = 0x08 then [0x5C, 0x62]
      else if c = 0x09 then [0x5C, 0x74]
      else if c = 0x0A then [0x5C, 0x6E]
      else if c = 0x0C then [0x5C, 0x66]
      else if c = 0x0D then [0x5C, 0x72]
      else if c = 0x22 then [0x5C, 0x22]
      else if c = 0x5C then [0x5C, 0x5C]
      else if c < 0x20 \<or> is_lead c \<or> is_trail c then unicode_escape c
      else [c])"

fun quote_chars :: "jsstring \<Rightarrow> jsstring" where
  "quote_chars [] = []"
| "quote_chars [c] = quote_unit c"
| "quote_chars (c # d # cs) =
     (if is_lead c \<and> is_trail d then c # d # quote_chars cs
      else quote_unit c @ quote_chars (d # cs))"

definition QuoteJSONString :: "jsstring \<Rightarrow> jsstring" where
  "QuoteJSONString s = 0x22 # quote_chars s @ [0x22]"

fun JSON_stringify :: "json \<Rightarrow> jsstring" where
  "JSON_stringify JNull = js ''null''"
| "JSON_stringify (JBool b) = (if b then js ''true'' else js ''false'')"
| "JSON_stringify (JNum l) = l"
| "JSON_stringify (JStr s) = QuoteJSONString s"
| "JSON_stringify (JArr xs) = 0x5B # join_comma (map JSON_stringify xs) @ [0x5D]"
| "JSON_stringify (JObj ps) =
     0x7B # join_comma (map (\<lambda>(k, v). QuoteJSONString k @ 0x3A # JSON_stringify v) ps) @ [0x7D]"

section \<open>JSON.parse\<close>

definition is_json_ws :: "jschar \<Rightarrow> bool" where
  "is_json_ws c \<longleftrightarrow> c = 0x20 \<or> c = 0x09 \<or> c = 0x0A \<or> c = 0x0D"

definition skip_ws :: "jsstring \<Rightarrow> jsstring" where
  "skip_ws s = dropWhile is_json_ws s"

definition is_digit :: "jschar \<Rightarrow> bool" where
  "is_digit c \<longleftrightarrow> 0x30 \<le> c \<and> c \<le> 0x39"

definition hex_value :: "jschar \<Rightarrow> nat option" where
  "hex_value c =
     (if 0x30 \<le> c \<and> c \<le> 0x39 then Some (unat c - 48)
      else if 0x41 \<le> c \<and> c \<le> 0x46 then Some (unat c - 55)
      else if 0x61 \<le> c \<and> c \<le> 0x66 then Some (unat c - 87)
      else None)"

definition hex4 :: "jschar \<Rightarrow> jschar \<Rightarrow> jschar \<Rightarrow> jschar \<Rightarrow> jschar option" where
  "hex4 a b c d =
     (case (hex_value a, hex_value b, hex_value c, hex_value d) of
        (Some p, Some q, Some r, Some s) \<Rightarrow> Some (of_nat (((p * 16 + q) * 16 + r) * 16 + s))
      | _ \<Rightarrow> None)"

definition unescape :: "jschar \<Rightarrow> jschar option" where
  "unescape e =
     (if e = 0x22 then Some 0x22 else if e = 0x5C then Some 0x5C
      else if e = 0x2F then Some 0x2F else if e = 0x62 then Some 0x08
      else if e = 0x66 then Some 0x0C else if e = 0x6E then Some 0x0A
      else if e = 0x72 then Some 0x0D else if e = 0x74 then Some 0x09
      else None)"

definition cons_char ::
  "jschar \<Rightarrow> error + jsstring \<times> jsstring \<Rightarrow> error + jsstring \<times> jsstring" where
  "cons_char c r = (case r of Inl e \<Rightarrow> Inl e | Inr (s, rest) \<Rightarrow> Inr (c # s, rest))"

text \<open>
  The characters of a string literal after its opening quote: the decoded string and
  the input after the closing quote.
\<close>

fun parse_chars :: "jsstring \<Rightarrow> error + jsstring \<times> jsstring" where
  "parse_chars [] = Inl SyntaxError"
| "parse_chars (c # cs) =
     (if c = 0x22 then Inr ([], cs)
      else if c = 0x5C then
        (case cs of
           [] \<Rightarrow> Inl SyntaxError
         | e # r \<Rightarrow>
             if e = 0x75 then
               (case r of
                  h1 # h2 # h3 # h4 # r' \<Rightarrow>
                    (case hex4 h1 h2 h3 h4 of
                       None \<Rightarrow> Inl SyntaxError
                     | Some u \<Rightarrow> cons_char u (parse_chars r'))
                | _ \<Rightarrow> Inl SyntaxError)
             else
               (case unescape e of
                  None \<Rightarrow> Inl SyntaxError
                | Some u \<Rightarrow> cons_char u (parse_chars r)))
      else if c < 0x20 then Inl SyntaxError
      else cons_char c (parse_chars cs))"

text \<open>A number literal: \<open>-? (0 | [1-9][0-9]*) (. [0-9]+)? ([eE] [+-]? [0-9]+)?\<close>.\<close>

definition parse_int :: "jsstring \<Rightarrow> error + jsstring \<times> jsstring" where
  "parse_int s =
     (case s of
        [] \<Rightarrow> Inl SyntaxError
      | c # cs \<Rightarrow>
          if c = 0x30 then Inr ([c], cs)
          else if is_digit c then Inr (c # takeWhile is_digit cs, dropWhile is_digit cs)
          else Inl SyntaxError)"

definition parse_frac :: "jsstring \<Rightarrow> error + jsstring \<times> jsstring" where
  "parse_frac s =
     (case s of
        c # cs \<Rightarrow>
          if c = 0x2E then
            (if takeWhile is_digit cs = [] then Inl SyntaxError
             else Inr (c # takeWhile is_digit cs, dropWhile is_digit cs))
          else Inr ([], s)
      | [] \<Rightarrow> Inr ([], s))"

definition parse_exp :: "jsstring \<Rightarrow> error + jsstring \<times> jsstring" where
  "parse_exp s =
     (case s of
        c # cs \<Rightarrow>
          if c = 0x65 \<or> c = 0x45 then
            (let (sg, r) = (case cs of
                              d # ds \<Rightarrow> if d = 0x2B \<or> d = 0x2D then ([d], ds) else ([], cs)
                            | [] \<Rightarrow> ([], cs))
             in if takeWhile is_digit r = [] then Inl SyntaxError
                else Inr (c # sg @ takeWhile is_digit r, dropWhile is_digit r))
          else Inr ([], s)
      | [] \<Rightarrow> Inr ([], s))"

definition parse_number :: "jsstring \<Rightarrow> error + jsstring \<times> jsstring" where
  "parse_number s =
     (let (sg, s1) = (case s of
                        c # cs \<Rightarrow> if c = 0x2D then ([c], cs) else ([], s)
                      | [] \<Rightarrow> ([], s))
      in case parse_int s1 of
           Inl e \<Rightarrow> Inl e
         | Inr (i, s2) \<Rightarrow>
             (case parse_frac s2 of
                Inl e \<Rightarrow> Inl e
              | Inr (f, s3) \<Rightarrow>
                  (case parse_exp s3 of
                     Inl e \<Rightarrow> Inl e
                   | Inr (x, s4) \<Rightarrow> Inr (sg @ i @ f @ x, s4))))"

definition parse_literal :: "jsstring \<Rightarrow> json \<Rightarrow> jsstring \<Rightarrow> error + json \<times> jsstring" where
  "parse_literal w v s =
     (if take (length w) s = w then Inr (v, drop (length w) s) else Inl SyntaxError)"

text \<open>
  The own properties of a parsed object. Each member is stored with
  \<open>CreateDataProperty\<close>: a key already present keeps its place and takes the new
  value; a new key that is an array index goes among the index keys in ascending
  order, which come first; any other new key goes last.
\<close>

definition dec_value :: "jsstring \<Rightarrow> nat" where
  "dec_value k = foldl (\<lambda>n c. 10 * n + (unat c - 48)) 0 k"

definition is_array_index :: "jsstring \<Rightarrow> bool" where
  "is_array_index k \<longleftrightarrow>
     k \<noteq> [] \<and> list_all is_digit k \<and> (hd k = 0x30 \<longrightarrow> length k = 1) \<and> dec_value k < 4294967295"

fun insert_index :: "jsstring \<Rightarrow> json \<Rightarrow> (jsstring \<times> json) list \<Rightarrow> (jsstring \<times> json) list" where
  "insert_index k v [] = [(k, v)]"
| "insert_index k v ((k', v') # ps) =
     (if is_array_index k' \<and> dec_value k' < dec_value k then (k', v') # insert_index k v ps
      else (k, v) # (k', v') # ps)"

definition CreateDataProperty ::
  "(jsstring \<times> json) list \<Rightarrow> jsstring \<times> json \<Rightarrow> (jsstring \<times> json) list" where
  "CreateDataProperty ps m =
     (case m of (k, v) \<Rightarrow>
        if map_of ps k \<noteq> None then map (\<lambda>(k', v'). if k' = k then (k', v) else (k', v')) ps
        else if is_array_index k then insert_index k v ps
        else ps @ [(k, v)])"

definition object_of_members :: "(jsstring \<times> json) list \<Rightarrow> json" where
  "object_of_members ms = JObj (foldl CreateDataProperty [] ms)"

text \<open>
  The recursive descent over the grammar: a value, the elements of an array after
  its opening bracket, the members of an object after its opening brace. Each returns
  what it read and the input that is left.
\<close>

function parse_value :: "jsstring \<Rightarrow> error + json \<times> jsstring"
  and parse_elements :: "jsstring \<Rightarrow> error + json list \<times> jsstring"
  and parse_members :: "jsstring \<Rightarrow> error + (jsstring \<times> json) list \<times> jsstring"
where
  "parse_value [] = Inl SyntaxError"
| "parse_value (c # cs) =
     (if c = 0x22 then
        (case parse_chars cs of
           Inl e \<Rightarrow> Inl e
         | Inr (s, r) \<Rightarrow> Inr (JStr s, r))
      else if c = 0x5B then
        (case skip_ws cs of
           [] \<Rightarrow> Inl SyntaxError
         | d # r \<Rightarrow>
             if d = 0x5D then Inr (JArr [], r)
             else (case parse_elements (d # r) of
                     Inl e \<Rightarrow> Inl e
                   | Inr (vs, r') \<Rightarrow> Inr (JArr vs, r')))
      else if c = 0x7B then
        (case skip_ws cs of
           [] \<Rightarrow> Inl SyntaxError
         | d # r \<Rightarrow>
             if d = 0x7D then Inr (JObj [], r)
             else (case parse_members (d # r) of
                     Inl e \<Rightarrow> Inl e
                   | Inr (ms, r') \<Rightarrow> Inr (object_of_members ms, r')))
      else if c = 0x74 then parse_literal (js ''true'') (JBool True) (c # cs)
      else if c = 0x66 then parse_literal (js ''false'') (JBool False) (c # cs)
      else if c = 0x6E then parse_literal (js ''null'') JNull (c # cs)
      else (case parse_number (c # cs) of
              Inl e \<Rightarrow> Inl e
            | Inr (l, r) \<Rightarrow> Inr (JNum l, r)))"
| "parse_elements [] = Inl SyntaxError"
| "parse_elements (c # cs) =
     (case parse_value (c # cs) of
        Inl e \<Rightarrow> Inl e
      | Inr (v, r) \<Rightarrow>
          (case skip_ws r of
             [] \<Rightarrow> Inl SyntaxError
           | d # r' \<Rightarrow>
               if d = 0x5D then Inr ([v], r')
               else if d = 0x2C then
                 (case parse_elements (skip_ws r') of
                    Inl e \<Rightarrow> Inl e
                  | Inr (vs, r'') \<Rightarrow> Inr (v # vs, r''))
               else Inl SyntaxError))"
| "parse_members [] = Inl SyntaxError"
| "parse_members (c # cs) =
     (if c = 0x22 then
        (case parse_chars cs of
           Inl e \<Rightarrow> Inl e
         | Inr (k, r) \<Rightarrow>
             (case skip_ws r of
                [] \<Rightarrow> Inl SyntaxError
              | d # r1 \<Rightarrow>
                  if d = 0x3A then
                    (case parse_value (skip_ws r1) of
                       Inl e \<Rightarrow> Inl e
                     | Inr (v, r2) \<Rightarrow>
                         (case skip_ws r2 of
                            [] \<Rightarrow> Inl SyntaxError
                          | d' # r3 \<Rightarrow>
                              if d' = 0x7D then Inr ([(k, v)], r3)
                              else if d' = 0x2C then
                                (case parse_members (skip_ws r3) of
                                   Inl e \<Rightarrow> Inl e
                                 | Inr (ms, r4) \<Rightarrow> Inr ((k, v) # ms, r4))
                              else Inl SyntaxError))
                  else Inl SyntaxError))
      else Inl SyntaxError)"
  by pat_completeness auto

text \<open>
  Termination: every call is on a shorter input, because each reader that succeeds
  has consumed at least one code unit. For the nested calls this is first shown on the
  domain of the functions.
\<close>

lemma length_skip_ws: "length (skip_ws s) \<le> length s"
  by (simp add: skip_ws_def length_dropWhile_le)

lemma skip_ws_Cons_length: "skip_ws s = d # r \<Longrightarrow> length r < length s"
  using length_skip_ws [of s] by simp

lemma parse_chars_length: "parse_chars s = Inr (t, r) \<Longrightarrow> length r < length s"
proof (induction s arbitrary: t r rule: parse_chars.induct)
  case 1
  then show ?case by simp
next
  case (2 c cs)
  then show ?case
    by (auto simp: cons_char_def split: if_splits list.splits option.splits sum.splits prod.splits)
       (fastforce+)?
qed

lemma parse_literal_length:
  "parse_literal w v s = Inr (x, r) \<Longrightarrow> w \<noteq> [] \<Longrightarrow> length r < length s"
  by (cases s) (auto simp: parse_literal_def split: if_splits)

lemma parse_int_length: "parse_int s = Inr (x, r) \<Longrightarrow> length r < length s"
  by (auto simp: parse_int_def less_Suc_eq_le length_dropWhile_le split: list.splits if_splits)

lemma parse_frac_length: "parse_frac s = Inr (x, r) \<Longrightarrow> length r \<le> length s"
  by (auto simp: parse_frac_def le_SucI length_dropWhile_le split: list.splits if_splits)

lemma parse_exp_length: "parse_exp s = Inr (x, r) \<Longrightarrow> length r \<le> length s"
  by (auto simp: parse_exp_def Let_def le_SucI length_dropWhile_le
      intro: le_trans [OF length_dropWhile_le] split: list.splits if_splits prod.splits)

lemma parse_number_length: "parse_number s = Inr (x, r) \<Longrightarrow> length r < length s"
  by (auto simp: parse_number_def Let_def split: list.splits if_splits prod.splits sum.splits
      dest!: parse_int_length parse_frac_length parse_exp_length)

lemma js_literal_nonempty: "js ''true'' \<noteq> []" "js ''false'' \<noteq> []" "js ''null'' \<noteq> []"
  by (simp_all add: js_def)

lemma parse_length_partial:
  "parse_value_parse_elements_parse_members_dom (Inl s) \<Longrightarrow>
     (\<forall>v r. parse_value s = Inr (v, r) \<longrightarrow> length r < length s)"
  "parse_value_parse_elements_parse_members_dom (Inr (Inl s1)) \<Longrightarrow>
     (\<forall>vs r. parse_elements s1 = Inr (vs, r) \<longrightarrow> length r < length s1)"
  "parse_value_parse_elements_parse_members_dom (Inr (Inr s2)) \<Longrightarrow>
     (\<forall>ms r. parse_members s2 = Inr (ms, r) \<longrightarrow> length r < length s2)"
proof (induction s and s1 and s2 rule: parse_value_parse_elements_parse_members.pinduct)
  case 1
  then show ?case by (simp add: parse_value.psimps)
next
  case (2 c cs)
  note ps = parse_value.psimps(2) [OF 2(1)]
  show ?case
  proof (intro allI impI)
    fix v r
    assume eq: "parse_value (c # cs) = Inr (v, r)"
    consider (str) "c = 0x22" | (arr) "c \<noteq> 0x22" "c = 0x5B"
      | (obj) "c \<noteq> 0x22" "c \<noteq> 0x5B" "c = 0x7B"
      | (other) "c \<noteq> 0x22" "c \<noteq> 0x5B" "c \<noteq> 0x7B"
      by blast
    then show "length r < length (c # cs)"
    proof cases
      case str
      with eq ps obtain t where "parse_chars cs = Inr (t, r)"
        by (auto split: sum.splits)
      then show ?thesis using parse_chars_length by fastforce
    next
      case arr
      with eq ps obtain d r0 where sk: "skip_ws cs = d # r0"
        by (auto split: list.splits)
      have l0: "length r0 < length cs" using sk by (rule skip_ws_Cons_length)
      show ?thesis
      proof (cases "d = 0x5D")
        case True
        with eq ps arr sk have "r = r0" by simp
        with l0 show ?thesis by simp
      next
        case False
        with eq ps arr sk obtain vs where "parse_elements (d # r0) = Inr (vs, r)"
          by (auto split: sum.splits)
        with 2(2) [OF arr sk False] have "length r < length (d # r0)" by blast
        with l0 show ?thesis by simp
      qed
    next
      case obj
      with eq ps obtain d r0 where sk: "skip_ws cs = d # r0"
        by (auto split: list.splits)
      have l0: "length r0 < length cs" using sk by (rule skip_ws_Cons_length)
      show ?thesis
      proof (cases "d = 0x7D")
        case True
        with eq ps obj sk have "r = r0" by simp
        with l0 show ?thesis by simp
      next
        case False
        with eq ps obj sk obtain ms where "parse_members (d # r0) = Inr (ms, r)"
          by (auto split: sum.splits)
        with 2(3) [OF obj sk False] have "length r < length (d # r0)" by blast
        with l0 show ?thesis by simp
      qed
    next
      case other
      with eq ps show ?thesis
        by (auto split: if_splits sum.splits
            dest: parse_literal_length parse_number_length simp: js_literal_nonempty)
    qed
  qed
next
  case 3
  then show ?case by (simp add: parse_elements.psimps)
next
  case (4 c cs)
  note ps = parse_elements.psimps(2) [OF 4(1)]
  show ?case
  proof (intro allI impI)
    fix vs r
    assume eq: "parse_elements (c # cs) = Inr (vs, r)"
    from eq ps obtain v r1 where pv: "parse_value (c # cs) = Inr (v, r1)"
      by (auto split: sum.splits)
    with 4(2) have l1: "length r1 < length (c # cs)" by blast
    from eq ps pv obtain d r2 where sk: "skip_ws r1 = d # r2"
      by (auto split: list.splits)
    have l2: "length r2 < length r1" using sk by (rule skip_ws_Cons_length)
    show "length r < length (c # cs)"
    proof (cases "d = 0x5D")
      case True
      with eq ps pv sk have "r = r2" by simp
      with l1 l2 show ?thesis by simp
    next
      case False
      with eq ps pv sk have comma: "d = 0x2C"
        by (auto split: if_splits)
      with eq ps pv sk False obtain ws where "parse_elements (skip_ws r2) = Inr (ws, r)"
        by (auto split: sum.splits)
      with 4(3) [OF pv refl sk False comma] have "length r < length (skip_ws r2)" by blast
      with l1 l2 length_skip_ws [of r2] show ?thesis by simp
    qed
  qed
next
  case 5
  then show ?case by (simp add: parse_members.psimps)
next
  case (6 c cs)
  note ps = parse_members.psimps(2) [OF 6(1)]
  show ?case
  proof (intro allI impI)
    fix ms r
    assume eq: "parse_members (c # cs) = Inr (ms, r)"
    from eq ps have q: "c = 0x22" by (auto split: if_splits)
    from eq ps q obtain k r0 where pc: "parse_chars cs = Inr (k, r0)"
      by (auto split: sum.splits)
    then have l0: "length r0 < length cs" by (rule parse_chars_length)
    from eq ps q pc obtain d r1 where sk1: "skip_ws r0 = d # r1"
      by (auto split: list.splits)
    have l1: "length r1 < length r0" using sk1 by (rule skip_ws_Cons_length)
    from eq ps q pc sk1 have colon: "d = 0x3A" by (auto split: if_splits)
    from eq ps q pc sk1 colon obtain v r2 where pv: "parse_value (skip_ws r1) = Inr (v, r2)"
      by (auto split: sum.splits)
    with 6(2) [OF q pc refl sk1 colon] have l2: "length r2 < length (skip_ws r1)" by blast
    from eq ps q pc sk1 colon pv obtain d' r3 where sk3: "skip_ws r2 = d' # r3"
      by (auto split: list.splits)
    have l3: "length r3 < length r2" using sk3 by (rule skip_ws_Cons_length)
    show "length r < length (c # cs)"
    proof (cases "d' = 0x7D")
      case True
      with eq ps q pc sk1 colon pv sk3 have "r = r3" by simp
      with l0 l1 l2 l3 length_skip_ws [of r1] show ?thesis by simp
    next
      case False
      with eq ps q pc sk1 colon pv sk3 have comma: "d' = 0x2C"
        by (auto split: if_splits)
      with eq ps q pc sk1 colon pv sk3 False obtain ms' where
        "parse_members (skip_ws r3) = Inr (ms', r)"
        by (auto split: sum.splits)
      with 6(3) [OF q pc refl sk1 colon pv refl sk3 False comma]
      have "length r < length (skip_ws r3)" by blast
      with l0 l1 l2 l3 length_skip_ws [of r1] length_skip_ws [of r3] show ?thesis by simp
    qed
  qed
qed

termination parse_value
proof (relation "measure (\<lambda>x. case x of Inl s \<Rightarrow> 2 * length s
     | Inr (Inl s) \<Rightarrow> 2 * length s + 1 | Inr (Inr s) \<Rightarrow> 2 * length s + 1)", goal_cases)
  case 1
  then show ?case by simp
next
  case (2 c cs d r)
  then show ?case using skip_ws_Cons_length [of cs d r] by simp
next
  case (3 c cs d r)
  then show ?case using skip_ws_Cons_length [of cs d r] by simp
next
  case (4 c cs)
  then show ?case by simp
next
  case (5 c cs b v r d r')
  then show ?case
    using parse_length_partial(1) [of "c # cs"] skip_ws_Cons_length [of r d r']
      length_skip_ws [of r'] by auto
next
  case (6 c cs b k r d r1)
  then show ?case
    using parse_chars_length [of cs k r] skip_ws_Cons_length [of r d r1]
      length_skip_ws [of r1] by auto
next
  case (7 c cs b k r d r1 b' v r2 d' r3)
  then show ?case
    using parse_chars_length [of cs k r] skip_ws_Cons_length [of r d r1]
      length_skip_ws [of r1] parse_length_partial(1) [of "skip_ws r1"]
      skip_ws_Cons_length [of r2 d' r3] length_skip_ws [of r3] by auto
qed

text \<open>The whole text has to be one value between optional white space.\<close>

definition JSON_parse :: "jsstring \<Rightarrow> error + json" where
  "JSON_parse s =
     (case parse_value (skip_ws s) of
        Inl e \<Rightarrow> Inl e
      | Inr (v, r) \<Rightarrow> if skip_ws r = [] then Inr v else Inl SyntaxError)"

section \<open>The page\<close>

text \<open>
  What the handlers read and write: the value stored under the key \<open>punchData\<close> of
  the local storage (\<open>None\<close> when the key is absent), the value of the input field,
  the rows of the list, and the alerts and downloads the page has produced. A row is the
  markup assigned to its \<open>innerHTML\<close> and its delete button, if it has one; a download
  is the name and type of the file and the string handed to the \<open>Blob\<close>. How the
  browser lays the markup out and how it encodes the string into bytes are not part of
  the model. Storage is taken to have room for every write.
\<close>

record button =
  btn_textContent :: jsstring
  btn_marginLeft :: jsstring
  btn_data :: "json list"
  btn_idx :: nat

record li =
  li_innerHTML :: jsstring
  li_delBtn :: "button option"

record download =
  file_name :: jsstring
  file_type :: jsstring
  file_content :: jsstring

record page =
  punchData :: "jsstring option"
  punchInput_value :: jsstring
  punchList :: "li list"
  alerts :: "jsstring list"
  downloads :: "download list"

text \<open>
  A handler returns the exception it ended with, if any, and the page as it then is:
  what it wrote before throwing stays written.
\<close>

type_synonym outcome = "error option \<times> page"

text \<open>
  The row markup
  \<^verbatim>\<open><span>${item.text}</span><span class="date">${item.date}</span>\<close>
  that both variants assign to \<open>li.innerHTML\<close>.
\<close>

definition li_markup :: "json \<Rightarrow> error + jsstring" where
  "li_markup item =
     (case get_prop item (js ''text'') of
        Inl e \<Rightarrow> Inl e
      | Inr t \<Rightarrow>
          (case template_subst t of
             Inl e \<Rightarrow> Inl e
           | Inr ts \<Rightarrow>
               (case get_prop item (js ''date'') of
                  Inl e \<Rightarrow> Inl e
                | Inr d \<Rightarrow>
                    (case template_subst d of
                       Inl e \<Rightarrow> Inl e
                     | Inr ds \<Rightarrow>
                         Inr (js ''<span>'' @ ts @ js ''</span><span class=\"date\">'' @ ds
                              @ js ''</span>'')))))"

text \<open>
  The export line: the index plus one between the brackets U+3010 and U+3011, the
  date, the colon U+FF1A, the text, a line feed.
\<close>

definition export_line :: "json \<Rightarrow> nat \<Rightarrow> error + jsstring" where
  "export_line item idx =
     (case get_prop item (js ''date'') of
        Inl e \<Rightarrow> Inl e
      | Inr d \<Rightarrow>
          (case template_subst d of
             Inl e \<Rightarrow> Inl e
           | Inr ds \<Rightarrow>
               (case get_prop item (js ''text'') of
                  Inl e \<Rightarrow> Inl e
                | Inr t \<Rightarrow>
                    (case template_subst t of
                       Inl e \<Rightarrow> Inl e
                     | Inr ts \<Rightarrow>
                         Inr ([0x3010] @ dec (idx + 1) @ [0x3011] @ ds @ [0xFF1A] @ ts
                              @ [0x0A])))))"

text \<open>The loop \<open>data.forEach((item, idx) => { content += ... })\<close>.\<close>

fun forEach_content :: "json list \<Rightarrow> nat \<Rightarrow> jsstring \<Rightarrow> error + jsstring" where
  "forEach_content [] idx content = Inr content"
| "forEach_content (item # items) idx content =
     (case export_line item idx of
        Inl e \<Rightarrow> Inl e
      | Inr l \<Rightarrow> forEach_content items (idx + 1) (content @ l))"

text \<open>
  \<open>data.length === 0\<close>. The length of an array or a string is the number of its
  elements; an object has the length it carries as an own property; a number or a
  boolean has none, and \<open>null\<close> throws. A number literal is zero when it rounds to
  zero: all its digits are zero, or its value is at most \<open>2 ^ -1075\<close>.
\<close>

definition literal_is_zero :: "jsstring \<Rightarrow> bool" where
  "literal_is_zero l =
     (let body = (case l of c # cs \<Rightarrow> if c = 0x2D then cs else l | [] \<Rightarrow> l);
          sig = takeWhile (\<lambda>c. c \<noteq> 0x65 \<and> c \<noteq> 0x45) body;
          ex = drop 1 (dropWhile (\<lambda>c. c \<noteq> 0x65 \<and> c \<noteq> 0x45) body);
          m = dec_value (filter is_digit sig);
          fl = length (drop 1 (dropWhile (\<lambda>c. c \<noteq> 0x2E) sig));
          e = (case ex of
                 [] \<Rightarrow> 0
               | c # cs \<Rightarrow>
                   if c = 0x2D then - int (dec_value cs)
                   else if c = 0x2B then int (dec_value cs)
                   else int (dec_value ex));
          k = e - int fl
      in m = 0 \<or> (k < 0 \<and> m * 2 ^ 1075 \<le> 10 ^ nat (- k)))"

definition length_is_zero :: "json \<Rightarrow> error + bool" where
  "length_is_zero data =
     (case data of
        JNull \<Rightarrow> Inl TypeError
      | JArr xs \<Rightarrow> Inr (xs = [])
      | JStr s \<Rightarrow> Inr (s = [])
      | JObj ps \<Rightarrow>
          Inr (case map_of ps (js ''length'') of Some (JNum l) \<Rightarrow> literal_is_zero l | _ \<Rightarrow> False)
      | _ \<Rightarrow> Inr False)"

text \<open>
  The message of \<open>alert\<close> in the export handler, the label of the delete button and
  the name and type of the exported file.
\<close>

definition no_data_message :: jsstring where
  "no_data_message =
     [0x6682, 0x65E0, 0x6253, 0x5361, 0x6570, 0x636E, 0x53EF, 0x5BFC, 0x51FA, 0xFF01]"

definition delete_label :: jsstring where
  "delete_label = [0x5220, 0x9664]"

definition punch_file :: "jsstring \<Rightarrow> download" where
  "punch_file content =
     \<lparr>file_name = js ''punch.txt'', file_type = js ''text/plain'', file_content = content\<rparr>"

section \<open>The variant without delete and clear-all (script.js)\<close>

text \<open>
  \<^verbatim>\<open>return data ? JSON.parse(data) : [];\<close> where \<open>data\<close> is what
  \<open>localStorage.getItem\<close> returned: \<open>null\<close> for an absent key and the empty string are
  the two values that count as false. \<open>savePunchData\<close> overwrites the value with
  \<open>JSON.stringify(data)\<close>.
\<close>

definition getPunchData_simple :: "page \<Rightarrow> error + json" where
  "getPunchData_simple p =
     (case punchData p of
        None \<Rightarrow> Inr (JArr [])
      | Some data \<Rightarrow> if data \<noteq> [] then JSON_parse data else Inr (JArr []))"

definition savePunchData_simple :: "json \<Rightarrow> page \<Rightarrow> page" where
  "savePunchData_simple data p = p\<lparr>punchData := Some (JSON_stringify data)\<rparr>"

text \<open>
  \<^verbatim>\<open>data.reverse().forEach(item => { ... punchList.appendChild(li); })\<close>, after the
  list has been emptied; the array that is reversed in place is the one just loaded and
  is not used again.
\<close>

fun forEach_li_simple :: "json list \<Rightarrow> page \<Rightarrow> outcome" where
  "forEach_li_simple [] p = (None, p)"
| "forEach_li_simple (item # items) p =
     (case li_markup item of
        Inl e \<Rightarrow> (Some e, p)
      | Inr h \<Rightarrow>
          forEach_li_simple items
            (p\<lparr>punchList := punchList p @ [\<lparr>li_innerHTML = h, li_delBtn = None\<rparr>]\<rparr>))"

definition renderPunchList_simple :: "page \<Rightarrow> outcome" where
  "renderPunchList_simple p =
     (case getPunchData_simple p of
        Inl e \<Rightarrow> (Some e, p)
      | Inr data \<Rightarrow>
          (let p1 = p\<lparr>punchList := []\<rparr>
           in case data of
                JArr xs \<Rightarrow> forEach_li_simple (rev xs) p1
              | _ \<Rightarrow> (Some TypeError, p1)))"

text \<open>The submit listener; \<open>dateStr\<close> is what \<open>now.toLocaleString\<close> returned.\<close>

definition punchForm_submit_simple :: "jsstring \<Rightarrow> page \<Rightarrow> outcome" where
  "punchForm_submit_simple dateStr p =
     (let text = trim (punchInput_value p)
      in if text = [] then (None, p)
         else
           (case getPunchData_simple p of
              Inl e \<Rightarrow> (Some e, p)
            | Inr data \<Rightarrow>
                (case push data (JObj [(js ''text'', JStr text), (js ''date'', JStr dateStr)]) of
                   Inl e \<Rightarrow> (Some e, p)
                 | Inr data' \<Rightarrow>
                     renderPunchList_simple
                       ((savePunchData_simple data' p)\<lparr>punchInput_value := []\<rparr>))))"

definition exportBtn_click_simple :: "page \<Rightarrow> outcome" where
  "exportBtn_click_simple p =
     (case getPunchData_simple p of
        Inl e \<Rightarrow> (Some e, p)
      | Inr data \<Rightarrow>
          (case length_is_zero data of
             Inl e \<Rightarrow> (Some e, p)
           | Inr True \<Rightarrow> (None, p\<lparr>alerts := alerts p @ [no_data_message]\<rparr>)
           | Inr False \<Rightarrow>
               (case data of
                  JArr xs \<Rightarrow>
                    (case forEach_content xs 0 [] of
                       Inl e \<Rightarrow> (Some e, p)
                     | Inr content \<Rightarrow>
                         (None, p\<lparr>downloads := downloads p @ [punch_file content]\<rparr>))
                | _ \<Rightarrow> (Some TypeError, p))))"

section \<open>The variant with delete and clear-all\<close>

text \<open>
  The two storage functions, the submit listener and the export listener have the same
  text as in the other file; rendering adds the delete button, and the clear-all listener
  is new.
\<close>

definition getPunchData :: "page \<Rightarrow> error + json" where
  "getPunchData p =
     (case punchData p of
        None \<Rightarrow> Inr (JArr [])
      | Some data \<Rightarrow> if data \<noteq> [] then JSON_parse data else Inr (JArr []))"

definition savePunchData :: "json \<Rightarrow> page \<Rightarrow> page" where
  "savePunchData data p = p\<lparr>punchData := Some (JSON_stringify data)\<rparr>"

text \<open>
  Every row gets a delete button whose handler closes over the array that was loaded
  and over the row's index in the reversed copy. The rows of one rendering share that
  array; here each button holds its elements, which is the same thing because the
  handler ends by rendering again, and rendering replaces every row.
\<close>

fun forEach_li :: "json list \<Rightarrow> json list \<Rightarrow> nat \<Rightarrow> page \<Rightarrow> outcome" where
  "forEach_li data [] idx p = (None, p)"
| "forEach_li data (item # items) idx p =
     (case li_markup item of
        Inl e \<Rightarrow> (Some e, p)
      | Inr h \<Rightarrow>
          forEach_li data items (idx + 1)
            (p\<lparr>punchList := punchList p @
                 [\<lparr>li_innerHTML = h,
                   li_delBtn = Some \<lparr>btn_textContent = delete_label, btn_marginLeft = js ''10px'',
                                      btn_data = data, btn_idx = idx\<rparr>\<rparr>]\<rparr>))"

definition renderPunchList :: "page \<Rightarrow> outcome" where
  "renderPunchList p =
     (case getPunchData p of
        Inl e \<Rightarrow> (Some e, p)
      | Inr data \<Rightarrow>
          (let p1 = p\<lparr>punchList := []\<rparr>
           in case data of
                JArr xs \<Rightarrow> forEach_li xs (rev xs) 0 p1
              | _ \<Rightarrow> (Some TypeError, p1)))"

text \<open>The handler of a delete button, with the array and the index it closed over.\<close>

definition delBtn_onclick :: "json list \<Rightarrow> nat \<Rightarrow> page \<Rightarrow> outcome" where
  "delBtn_onclick data idx p =
     (let originIdx = int (length data) - 1 - int idx
      in renderPunchList (savePunchData (JArr (splice originIdx 1 data)) p))"

text \<open>A click on the delete button of the row at display position \<open>i\<close>, if there is one.\<close>

definition click_delBtn :: "nat \<Rightarrow> page \<Rightarrow> outcome" where
  "click_delBtn i p =
     (if i < length (punchList p) then
        (case li_delBtn (punchList p ! i) of
           Some b \<Rightarrow> delBtn_onclick (btn_data b) (btn_idx b) p
         | None \<Rightarrow> (None, p))
      else (None, p))"

definition punchForm_submit :: "jsstring \<Rightarrow> page \<Rightarrow> outcome" where
  "punchForm_submit dateStr p =
     (let text = trim (punchInput_value p)
      in if text = [] then (None, p)
         else
           (case getPunchData p of
              Inl e \<Rightarrow> (Some e, p)
            | Inr data \<Rightarrow>
                (case push data (JObj [(js ''text'', JStr text), (js ''date'', JStr dateStr)]) of
                   Inl e \<Rightarrow> (Some e, p)
                 | Inr data' \<Rightarrow>
                     renderPunchList ((savePunchData data' p)\<lparr>punchInput_value := []\<rparr>))))"

definition exportBtn_click :: "page \<Rightarrow> outcome" where
  "exportBtn_click p =
     (case getPunchData p of
        Inl e \<Rightarrow> (Some e, p)
      | Inr data \<Rightarrow>
          (case length_is_zero data of
             Inl e \<Rightarrow> (Some e, p)
           | Inr True \<Rightarrow> (None, p\<lparr>alerts := alerts p @ [no_data_message]\<rparr>)
           | Inr False \<Rightarrow>
               (case data of
                  JArr xs \<Rightarrow>
                    (case forEach_content xs 0 [] of
                       Inl e \<Rightarrow> (Some e, p)
                     | Inr content \<Rightarrow>
                         (None, p\<lparr>downloads := downloads p @ [punch_file content]\<rparr>))
                | _ \<Rightarrow> (Some TypeError, p))))"

text \<open>The clear-all listener; \<open>confirmed\<close> is the answer to the \<open>confirm\<close> dialog.\<close>

definition clearAllBtn_click :: "bool \<Rightarrow> page \<Rightarrow> outcome" where
  "clearAllBtn_click confirmed p =
     (if confirmed then renderPunchList (savePunchData (JArr []) p) else (None, p))"

section \<open>The data model of the specification\<close>

text \<open>
  An entry is an object with the two string properties \<open>text\<close> and \<open>date\<close>, in the
  order in which the submit listener writes them; a log is an array of entries.
\<close>

record entry =
  entry_text :: jsstring
  entry_date :: jsstring

definition json_of_entry :: "entry \<Rightarrow> json" where
  "json_of_entry e = JObj [(js ''text'', JStr (entry_text e)), (js ''date'', JStr (entry_date e))]"

definition json_of_log :: "entry list \<Rightarrow> json" where
  "json_of_log es = JArr (map json_of_entry es)"

text \<open>What a row shows for an entry: the markup with its text and its date.\<close>

definition entry_markup :: "entry \<Rightarrow> jsstring" where
  "entry_markup e =
     js ''<span>'' @ entry_text e @ js ''</span><span class=\"date\">'' @ entry_date e @ js ''</span>''"

text \<open>
  The exported report in the words of the specification: for each position of the log, in
  insertion order, the line made of the 1-based position, the date and the text.
\<close>

definition report_line :: "nat \<Rightarrow> entry \<Rightarrow> jsstring" where
  "report_line i e = [0x3010] @ dec i @ [0x3011] @ entry_date e @ [0xFF1A] @ entry_text e @ [0x0A]"

definition export_report :: "entry list \<Rightarrow> jsstring" where
  "export_report es = concat (map (\<lambda>i. report_line (i + 1) (es ! i)) [0..<length es])"

text \<open>A list without its element at position \<open>k\<close>, the others in their order.\<close>

definition remove_at :: "nat \<Rightarrow> 'a list \<Rightarrow> 'a list" where
  "remove_at k xs = take k xs @ drop (Suc k) xs"

text \<open>
  Stored text that is serialized Entry-array data: it parses, to an array whose elements
  are objects with exactly the two string properties \<open>text\<close> and \<open>date\<close>.
\<close>

definition is_entry :: "json \<Rightarrow> bool" where
  "is_entry v =
     (case v of
        JObj ps \<Rightarrow>
          length ps = 2 \<and>
          (case (map_of ps (js ''text''), map_of ps (js ''date'')) of
             (Some (JStr t), Some (JStr d)) \<Rightarrow> True
           | _ \<Rightarrow> False)
      | _ \<Rightarrow> False)"

definition valid_log_text :: "jsstring \<Rightarrow> bool" where
  "valid_log_text raw =
     (case JSON_parse raw of
        Inr (JArr xs) \<Rightarrow> list_all is_entry xs
      | _ \<Rightarrow> False)"

text \<open>
  A page of the variant with delete buttons, seen without them: this is how pages of the
  two variants are compared.
\<close>

definition strip_buttons :: "page \<Rightarrow> page" where
  "strip_buttons p = p\<lparr>punchList := map (\<lambda>r. r\<lparr>li_delBtn := None\<rparr>) (punchList p)\<rparr>"

text \<open>
  The rows the two variants build for an entry, and the text between the brackets of a
  serialized log.
\<close>

definition del_button :: "json list \<Rightarrow> nat \<Rightarrow> button" where
  "del_button data idx =
     \<lparr>btn_textContent = delete_label, btn_marginLeft = js ''10px'', btn_data = data, btn_idx = idx\<rparr>"

definition rendered_row :: "json list \<Rightarrow> nat \<times> entry \<Rightarrow> li" where
  "rendered_row data je =
     \<lparr>li_innerHTML = entry_markup (snd je), li_delBtn = Some (del_button data (fst je))\<rparr>"

definition plain_row :: "entry \<Rightarrow> li" where
  "plain_row e = \<lparr>li_innerHTML = entry_markup e, li_delBtn = None\<rparr>"

definition entries_text :: "entry list \<Rightarrow> jsstring" where
  "entries_text es = join_comma (map (\<lambda>e. JSON_stringify (json_of_entry e)) es)"

section \<open>Concrete pages and logs\<close>

definition blank_page :: page where
  "blank_page = \<lparr>punchData = None, punchInput_value = [], punchList = [], alerts = [],
     downloads = []\<rparr>"

definition entry_A :: entry where
  "entry_A = \<lparr>entry_text = js ''A'', entry_date = js ''D1''\<rparr>"

definition entry_B :: entry where
  "entry_B = \<lparr>entry_text = js ''B'', entry_date = js ''D2''\<rparr>"

definition entry_C :: entry where
  "entry_C = \<lparr>entry_text = js ''C'', entry_date = js ''D3''\<rparr>"

definition page_AB :: page where
  "page_AB = blank_page\<lparr>punchData :=
     Some (js ''[{\"text\":\"A\",\"date\":\"D1\"},{\"text\":\"B\",\"date\":\"D2\"}]'')\<rparr>"

definition page_ABC :: page where
  "page_ABC = blank_page\<lparr>punchData :=
     Some (js ''[{\"text\":\"A\",\"date\":\"D1\"},{\"text\":\"B\",\"date\":\"D2\"},{\"text\":\"C\",\"date\":\"D3\"}]'')\<rparr>"

section \<open>Reading back what was written\<close>

text \<open>
  \<open>JSON.parse\<close> inverts \<open>JSON.stringify\<close> on logs. The quoted form of a string is
  read back unit by unit; an entry is then an object of two members, and a log an array
  of such objects.
\<close>

lemma unat_digit: "n < 16 \<Longrightarrow> unat (0x30 + of_nat n :: jschar) = 48 + n"
  by (simp add: unat_word_ariths unat_of_nat)

lemma unat_letter: "n < 16 \<Longrightarrow> unat (0x57 + of_nat n :: jschar) = 87 + n"
  by (simp add: unat_word_ariths unat_of_nat)

lemma hex_value_hex_digit: "n < 16 \<Longrightarrow> hex_value (hex_digit n) = Some n"
  by (simp add: hex_digit_def hex_value_def word_le_nat_alt unat_digit unat_letter)

lemma nibbles:
  "((n div 4096 * 16 + n div 256 mod 16) * 16 + n div 16 mod 16) * 16 + n mod 16 = (n::nat)"
proof -
  have a: "n div 4096 = n div 256 div 16" and b: "n div 256 = n div 16 div 16"
    by (simp_all add: div_mult2_eq)
  have "n div 256 div 16 * 16 + n div 256 mod 16 = n div 256"
    by (rule div_mult_mod_eq)
  moreover have "n div 16 div 16 * 16 + n div 16 mod 16 = n div 16"
    by (rule div_mult_mod_eq)
  moreover have "n div 16 * 16 + n mod 16 = n"
    by (rule div_mult_mod_eq)
  ultimately show ?thesis
    by (simp only: a b)
qed

lemma hex4_unicode_escape:
  "hex4 (hex_digit (unat c div 4096)) (hex_digit (unat c div 256 mod 16))
        (hex_digit (unat c div 16 mod 16)) (hex_digit (unat c mod 16)) = Some (c :: jschar)"
proof -
  have "unat c < 65536" using unsigned_less [of c] by simp
  then have h1: "hex_value (hex_digit (unat c div 4096)) = Some (unat c div 4096)"
    by (intro hex_value_hex_digit) simp
  have h2: "hex_value (hex_digit (unat c div 256 mod 16)) = Some (unat c div 256 mod 16)"
    by (intro hex_value_hex_digit) simp
  have h3: "hex_value (hex_digit (unat c div 16 mod 16)) = Some (unat c div 16 mod 16)"
    by (intro hex_value_hex_digit) simp
  have h4: "hex_value (hex_digit (unat c mod 16)) = Some (unat c mod 16)"
    by (intro hex_value_hex_digit) simp
  show ?thesis
    unfolding hex4_def h1 h2 h3 h4
    by (simp only: prod.case option.case nibbles) simp
qed

lemma surrogate_plain:
  "is_lead c \<or> is_trail c \<Longrightarrow> c \<noteq> 0x22 \<and> c \<noteq> 0x5C \<and> \<not> c < 0x20"
  by (auto simp: is_lead_def is_trail_def word_le_nat_alt word_less_nat_alt)

lemma parse_chars_plain:
  "c \<noteq> 0x22 \<Longrightarrow> c \<noteq> 0x5C \<Longrightarrow> \<not> c < 0x20 \<Longrightarrow> parse_chars (c # t) = cons_char c (parse_chars t)"
  by simp

lemma parse_chars_escape:
  "parse_chars (unicode_escape c @ t) = cons_char c (parse_chars t)"
  by (simp add: unicode_escape_def hex4_unicode_escape)

lemma parse_chars_quote_unit: "parse_chars (quote_unit c @ t) = cons_char c (parse_chars t)"
proof -
  consider (short) "c = 0x08 \<or> c = 0x09 \<or> c = 0x0A \<or> c = 0x0C \<or> c = 0x0D \<or> c = 0x22 \<or> c = 0x5C"
    | (esc) "\<not> (c = 0x08 \<or> c = 0x09 \<or> c = 0x0A \<or> c = 0x0C \<or> c = 0x0D \<or> c = 0x22 \<or> c = 0x5C)"
        "c < 0x20 \<or> is_lead c \<or> is_trail c"
    | (plain) "\<not> (c = 0x08 \<or> c = 0x09 \<or> c = 0x0A \<or> c = 0x0C \<or> c = 0x0D \<or> c = 0x22 \<or> c = 0x5C)"
        "\<not> (c < 0x20 \<or> is_lead c \<or> is_trail c)"
    by blast
  then show ?thesis
  proof cases
    case short
    then show ?thesis
      by (elim disjE) (simp_all add: quote_unit_def unescape_def)
  next
    case esc
    then have "quote_unit c = unicode_escape c" by (simp add: quote_unit_def)
    then show ?thesis by (simp only: parse_chars_escape)
  next
    case plain
    then have "quote_unit c = [c]" by (simp add: quote_unit_def)
    with plain show ?thesis by simp
  qed
qed

lemma parse_chars_quote_chars: "parse_chars (quote_chars s @ 0x22 # rest) = Inr (s, rest)"
proof (induction s rule: quote_chars.induct)
  case 1
  show ?case by simp
next
  case (2 c)
  show ?case using parse_chars_quote_unit [of c "0x22 # rest"] by (simp add: cons_char_def)
next
  case (3 c d cs)
  show ?case
  proof (cases "is_lead c \<and> is_trail d")
    case True
    then have qc: "quote_chars (c # d # cs) = c # d # quote_chars cs" by simp
    from True have pc: "parse_chars (c # t) = cons_char c (parse_chars t)"
      and pd: "parse_chars (d # t) = cons_char d (parse_chars t)" for t
      using surrogate_plain [of c] surrogate_plain [of d] by simp_all
    from 3(1) [OF True] show ?thesis
      unfolding qc by (simp add: pc pd cons_char_def del: parse_chars.simps)
  next
    case False
    then have qc: "quote_chars (c # d # cs) = quote_unit c @ quote_chars (d # cs)" by auto
    from 3(2) [OF False] show ?thesis
      unfolding qc
      using parse_chars_quote_unit [of c "quote_chars (d # cs) @ 0x22 # rest"]
      by (simp add: cons_char_def del: parse_chars.simps)
  qed
qed


lemma skip_ws_no_ws: "\<not> is_json_ws c \<Longrightarrow> skip_ws (c # t) = c # t"
  by (simp add: skip_ws_def)

lemma quote_chars_text: "quote_chars (js ''text'') = js ''text''"
  by (simp add: js_def quote_unit_def is_lead_def is_trail_def)

lemma quote_chars_date: "quote_chars (js ''date'') = js ''date''"
  by (simp add: js_def quote_unit_def is_lead_def is_trail_def)

lemma stringify_entry:
  "JSON_stringify (json_of_entry e) =
     0x7B # 0x22 # js ''text'' @ 0x22 # 0x3A # 0x22 # quote_chars (entry_text e) @ 0x22 # 0x2C
       # 0x22 # js ''date'' @ 0x22 # 0x3A # 0x22 # quote_chars (entry_date e) @ [0x22, 0x7D]"
  by (simp add: json_of_entry_def QuoteJSONString_def quote_chars_text quote_chars_date)

lemma parse_chars_text: "parse_chars (js ''text'' @ 0x22 # t) = Inr (js ''text'', t)"
  using parse_chars_quote_chars [of "js ''text''" t] by (simp only: quote_chars_text)

lemma parse_chars_date: "parse_chars (js ''date'' @ 0x22 # t) = Inr (js ''date'', t)"
  using parse_chars_quote_chars [of "js ''date''" t] by (simp only: quote_chars_date)

lemma object_of_entry_members:
  "object_of_members [(js ''text'', JStr t), (js ''date'', JStr d)] =
     JObj [(js ''text'', JStr t), (js ''date'', JStr d)]"
  by (simp add: object_of_members_def CreateDataProperty_def is_array_index_def js_def is_digit_def)

lemma parse_value_string:
  "parse_value (0x22 # quote_chars s @ 0x22 # rest) = Inr (JStr s, rest)"
  by (simp add: parse_chars_quote_chars)

lemma parse_members_entry:
  "parse_members (0x22 # js ''text'' @ 0x22 # 0x3A # 0x22 # quote_chars t @ 0x22 # 0x2C
       # 0x22 # js ''date'' @ 0x22 # 0x3A # 0x22 # quote_chars d @ 0x22 # 0x7D # rest) =
     Inr ([(js ''text'', JStr t), (js ''date'', JStr d)], rest)"
  by (simp add: parse_chars_text parse_chars_date parse_value_string skip_ws_no_ws is_json_ws_def
      del: parse_value.simps)

lemma parse_value_entry:
  "parse_value (JSON_stringify (json_of_entry e) @ rest) = Inr (json_of_entry e, rest)"
  unfolding stringify_entry
  by (simp add: skip_ws_no_ws is_json_ws_def parse_members_entry
      object_of_entry_members json_of_entry_def del: parse_members.simps)


lemma parse_elements_unfold:
  "s \<noteq> [] \<Longrightarrow> parse_elements s =
     (case parse_value s of
        Inl e \<Rightarrow> Inl e
      | Inr (v, r) \<Rightarrow>
          (case skip_ws r of
             [] \<Rightarrow> Inl SyntaxError
           | d # r' \<Rightarrow>
               if d = 0x5D then Inr ([v], r')
               else if d = 0x2C then
                 (case parse_elements (skip_ws r') of
                    Inl e \<Rightarrow> Inl e
                  | Inr (vs, r'') \<Rightarrow> Inr (v # vs, r''))
               else Inl SyntaxError))"
  by (cases s) simp_all

lemma join_comma_Cons: "ys \<noteq> [] \<Longrightarrow> join_comma (x # ys) = x @ 0x2C # join_comma ys"
  by (cases ys) simp_all

lemma entries_text_single: "entries_text [e] = JSON_stringify (json_of_entry e)"
  by (simp add: entries_text_def)

lemma entries_text_Cons:
  "es \<noteq> [] \<Longrightarrow> entries_text (e # es) = JSON_stringify (json_of_entry e) @ 0x2C # entries_text es"
  by (simp add: entries_text_def join_comma_Cons)

lemma entries_text_brace: "es \<noteq> [] \<Longrightarrow> \<exists>t. entries_text es = 0x7B # t"
proof (cases es)
  case Nil
  moreover assume "es \<noteq> []"
  ultimately show ?thesis by simp
next
  case (Cons e es')
  show ?thesis
  proof (cases "es' = []")
    case True
    with Cons show ?thesis by (simp add: entries_text_single stringify_entry)
  next
    case False
    with Cons show ?thesis by (simp add: entries_text_Cons stringify_entry)
  qed
qed

lemma skip_ws_entries_text: "es \<noteq> [] \<Longrightarrow> skip_ws (entries_text es @ t) = entries_text es @ t"
proof -
  assume "es \<noteq> []"
  then obtain u where "entries_text es = 0x7B # u" using entries_text_brace by blast
  then show ?thesis by (simp add: skip_ws_no_ws is_json_ws_def)
qed

lemma parse_elements_entries:
  "es \<noteq> [] \<Longrightarrow>
     parse_elements (entries_text es @ 0x5D # rest) = Inr (map json_of_entry es, rest)"
proof (induction es rule: list_nonempty_induct)
  case (single e)
  have ne: "JSON_stringify (json_of_entry e) @ 0x5D # rest \<noteq> []" by simp
  show ?case
    by (simp only: entries_text_single parse_elements_unfold [OF ne] parse_value_entry)
       (simp add: skip_ws_no_ws is_json_ws_def)
next
  case (cons e es)
  have ne: "JSON_stringify (json_of_entry e) @ 0x2C # entries_text es @ 0x5D # rest \<noteq> []"
    by simp
  have "parse_elements (entries_text (e # es) @ 0x5D # rest) =
        parse_elements (JSON_stringify (json_of_entry e) @ 0x2C # entries_text es @ 0x5D # rest)"
    using cons.hyps by (simp add: entries_text_Cons)
  also have "\<dots> = Inr (json_of_entry e # map json_of_entry es, rest)"
    by (simp only: parse_elements_unfold [OF ne] parse_value_entry)
       (simp add: skip_ws_no_ws is_json_ws_def skip_ws_entries_text [OF cons.hyps] cons.IH)
  finally show ?case by simp
qed

lemma stringify_log:
  "JSON_stringify (json_of_log es) = 0x5B # entries_text es @ [0x5D]"
  by (simp add: json_of_log_def entries_text_def comp_def)

lemma JSON_parse_log: "JSON_parse (JSON_stringify (json_of_log es)) = Inr (json_of_log es)"
proof (cases "es = []")
  case True
  then show ?thesis
    by (simp add: JSON_parse_def json_of_log_def skip_ws_def is_json_ws_def)
next
  case False
  then obtain u where u: "entries_text es = 0x7B # u" using entries_text_brace by blast
  have sk: "skip_ws (entries_text es @ [0x5D]) = 0x7B # u @ [0x5D]"
    using skip_ws_entries_text [OF False, of "[0x5D]"] u by simp
  have pe: "parse_elements (0x7B # u @ [0x5D]) = Inr (map json_of_entry es, [])"
    using parse_elements_entries [OF False, of "[]"] u by simp
  have "parse_value (0x5B # entries_text es @ [0x5D]) = Inr (json_of_log es, [])"
    by (simp add: sk pe json_of_log_def del: parse_elements.simps)
  then show ?thesis
    by (simp add: JSON_parse_def stringify_log skip_ws_no_ws is_json_ws_def skip_ws_def
        del: parse_value.simps)
qed

lemma is_entry_json_of_entry: "is_entry (json_of_entry e)"
  by (simp add: is_entry_def json_of_entry_def js_def)

lemma valid_log_text_saved: "valid_log_text (JSON_stringify (json_of_log es))"
  by (simp add: valid_log_text_def JSON_parse_log)
     (simp add: json_of_log_def list_all_iff is_entry_json_of_entry)

lemma stringify_log_nonempty: "JSON_stringify (json_of_log es) \<noteq> []"
  by (simp add: stringify_log)

lemma getPunchData_saved_log:
  "punchData p = Some (JSON_stringify (json_of_log es)) \<Longrightarrow> getPunchData p = Inr (json_of_log es)"
  by (simp add: getPunchData_def stringify_log_nonempty JSON_parse_log)

lemma getPunchData_simple_saved_log:
  "punchData p = Some (JSON_stringify (json_of_log es)) \<Longrightarrow>
     getPunchData_simple p = Inr (json_of_log es)"
  by (simp add: getPunchData_simple_def stringify_log_nonempty JSON_parse_log)

lemma stringify_AB:
  "JSON_stringify (json_of_log [entry_A, entry_B]) =
     js ''[{\"text\":\"A\",\"date\":\"D1\"},{\"text\":\"B\",\"date\":\"D2\"}]''"
  by (simp add: json_of_log_def json_of_entry_def entry_A_def entry_B_def js_def
      QuoteJSONString_def quote_unit_def is_lead_def is_trail_def)

lemma parse_AB:
  "JSON_parse (js ''[{\"text\":\"A\",\"date\":\"D1\"},{\"text\":\"B\",\"date\":\"D2\"}]'') =
     Inr (json_of_log [entry_A, entry_B])"
  by (simp add: json_of_log_def json_of_entry_def entry_A_def entry_B_def js_def JSON_parse_def
      skip_ws_def is_json_ws_def cons_char_def object_of_members_def CreateDataProperty_def
      is_array_index_def is_digit_def)

lemma stringify_ABC:
  "JSON_stringify (json_of_log [entry_A, entry_B, entry_C]) =
     js ''[{\"text\":\"A\",\"date\":\"D1\"},{\"text\":\"B\",\"date\":\"D2\"},{\"text\":\"C\",\"date\":\"D3\"}]''"
  by (simp add: json_of_log_def json_of_entry_def entry_A_def entry_B_def entry_C_def js_def
      QuoteJSONString_def quote_unit_def is_lead_def is_trail_def)

lemma getPunchData_page_AB: "getPunchData page_AB = Inr (json_of_log [entry_A, entry_B])"
  by (simp add: page_AB_def blank_page_def getPunchData_def parse_AB) (simp add: js_def)

lemma getPunchData_page_ABC: "getPunchData page_ABC = Inr (json_of_log [entry_A, entry_B, entry_C])"
  using getPunchData_saved_log [of page_ABC "[entry_A, entry_B, entry_C]"]
  by (simp add: page_ABC_def blank_page_def stringify_ABC)

lemma parse_null: "JSON_parse (js ''null'') = Inr JNull"
  by (simp add: JSON_parse_def skip_ws_def is_json_ws_def js_def parse_literal_def)

lemma parse_brace: "JSON_parse (js ''{'') = Inl SyntaxError"
  by (simp add: JSON_parse_def skip_ws_def is_json_ws_def js_def)

lemma parse_empty_array: "JSON_parse [0x5B, 0x5D] = Inr (JArr [])"
  by (simp add: JSON_parse_def skip_ws_def is_json_ws_def)

lemma trim_blank: "trim (js ''   '') = []"
  by (simp add: trim_def js_def is_white_space_def)

lemma trim_C: "trim (js ''  C '') = js ''C''"
  by (simp add: trim_def js_def is_white_space_def)

section \<open>The only error of JSON.parse\<close>

text \<open>Whatever the text, a failure of \<open>JSON.parse\<close> is a \<open>SyntaxError\<close>.\<close>

lemma cons_char_Inl: "cons_char u r = Inl e \<Longrightarrow> r = Inl e"
  by (cases r) (auto simp: cons_char_def)

lemma parse_chars_error: "parse_chars s = Inl e \<Longrightarrow> e = SyntaxError"
proof (induction s rule: parse_chars.induct)
  case 1
  then show ?case by simp
next
  case (2 c cs)
  note eq = \<open>parse_chars (c # cs) = Inl e\<close>
  consider (quote) "c = 0x22" | (esc) "c \<noteq> 0x22" "c = 0x5C"
    | (ctl) "c \<noteq> 0x22" "c \<noteq> 0x5C" "c < 0x20"
    | (plain) "c \<noteq> 0x22" "c \<noteq> 0x5C" "\<not> c < 0x20"
    by blast
  then show ?case
  proof cases
    case quote
    with eq show ?thesis by simp
  next
    case ctl
    with eq show ?thesis by simp
  next
    case plain
    with eq have "parse_chars cs = Inl e" by (simp add: cons_char_Inl)
    with 2(3) [OF plain] show ?thesis .
  next
    case esc
    show ?thesis
    proof (cases cs)
      case Nil
      with eq esc show ?thesis by simp
    next
      case (Cons x r)
      show ?thesis
      proof (cases "x = 0x75")
        case False
        show ?thesis
        proof (cases "unescape x")
          case None
          with eq esc Cons False show ?thesis by simp
        next
          case (Some u)
          with eq esc Cons False have "parse_chars r = Inl e" by (simp add: cons_char_Inl)
          with 2(2) [OF esc Cons False Some] show ?thesis .
        qed
      next
        case True
        show ?thesis
        proof (cases "\<exists>h1 h2 h3 h4 r'. r = h1 # h2 # h3 # h4 # r'")
          case False
          then have "(case r of h1 # h2 # h3 # h4 # r' \<Rightarrow>
                (case hex4 h1 h2 h3 h4 of None \<Rightarrow> Inl SyntaxError
                 | Some u \<Rightarrow> cons_char u (parse_chars r'))
              | _ \<Rightarrow> Inl SyntaxError) = Inl SyntaxError"
            by (auto split: list.splits)
          with eq esc Cons True show ?thesis by simp
        next
          case ex: True
          then obtain h1 h2 h3 h4 r' where r: "r = h1 # h2 # h3 # h4 # r'" by blast
          show ?thesis
          proof (cases "hex4 h1 h2 h3 h4")
            case None
            with eq esc Cons True r show ?thesis by simp
          next
            case (Some u)
            with eq esc Cons True r have "parse_chars r' = Inl e" by (simp add: cons_char_Inl)
            with 2(1) [OF esc Cons True r refl refl refl Some] show ?thesis .
          qed
        qed
      qed
    qed
  qed
qed

lemma parse_literal_error: "parse_literal w v s = Inl e \<Longrightarrow> e = SyntaxError"
  by (auto simp: parse_literal_def split: if_splits)

lemma parse_int_error: "parse_int s = Inl e \<Longrightarrow> e = SyntaxError"
  by (auto simp: parse_int_def split: list.splits if_splits)

lemma parse_frac_error: "parse_frac s = Inl e \<Longrightarrow> e = SyntaxError"
  by (auto simp: parse_frac_def split: list.splits if_splits)

lemma parse_exp_error: "parse_exp s = Inl e \<Longrightarrow> e = SyntaxError"
  by (auto simp: parse_exp_def Let_def split: list.splits if_splits prod.splits)

lemma parse_number_error: "parse_number s = Inl e \<Longrightarrow> e = SyntaxError"
proof -
  assume a: "parse_number s = Inl e"
  obtain sg s1 where sg:
    "(case s of c # cs \<Rightarrow> if c = 0x2D then ([c], cs) else ([], s) | [] \<Rightarrow> ([], s)) = (sg, s1)"
    by (cases "(case s of c # cs \<Rightarrow> if c = 0x2D then ([c], cs) else ([], s) | [] \<Rightarrow> ([], s))")
  show ?thesis
  proof (cases "parse_int s1")
    case (Inl e')
    with a sg have "e' = e" by (simp add: parse_number_def)
    with Inl show ?thesis by (auto dest: parse_int_error)
  next
    case i: (Inr ir)
    obtain i' s2 where ir: "ir = (i', s2)" by (cases ir)
    show ?thesis
    proof (cases "parse_frac s2")
      case (Inl e')
      with a sg i ir have "e' = e" by (simp add: parse_number_def)
      with Inl show ?thesis by (auto dest: parse_frac_error)
    next
      case f: (Inr fr)
      obtain f' s3 where fr: "fr = (f', s3)" by (cases fr)
      show ?thesis
      proof (cases "parse_exp s3")
        case (Inl e')
        with a sg i ir f fr have "e' = e" by (simp add: parse_number_def)
        with Inl show ?thesis by (auto dest: parse_exp_error)
      next
        case (Inr xr)
        with a sg i ir f fr show ?thesis
          by (cases xr) (simp add: parse_number_def)
      qed
    qed
  qed
qed

lemma parse_error:
  "\<forall>e. parse_value s = Inl e \<longrightarrow> e = SyntaxError"
  "\<forall>e. parse_elements s1 = Inl e \<longrightarrow> e = SyntaxError"
  "\<forall>e. parse_members s2 = Inl e \<longrightarrow> e = SyntaxError"
  supply parse_value.simps [simp del] parse_elements.simps [simp del]
    parse_members.simps [simp del]
proof (induction s and s1 and s2 rule: parse_value_parse_elements_parse_members.induct)
  case 1
  show ?case by (simp add: parse_value.simps(1))
next
  case (2 c cs)
  note ps = parse_value.simps(2) [of c cs]
  show ?case
  proof (intro allI impI)
    fix e
    assume eq: "parse_value (c # cs) = Inl e"
    consider (str) "c = 0x22" | (arr) "c \<noteq> 0x22" "c = 0x5B"
      | (obj) "c \<noteq> 0x22" "c \<noteq> 0x5B" "c = 0x7B"
      | (other) "c \<noteq> 0x22" "c \<noteq> 0x5B" "c \<noteq> 0x7B"
      by blast
    then show "e = SyntaxError"
    proof cases
      case str
      with eq ps have "parse_chars cs = Inl e"
        by (auto split: sum.splits)
      then show ?thesis by (rule parse_chars_error)
    next
      case arr
      show ?thesis
      proof (cases "skip_ws cs")
        case Nil
        with eq ps arr show ?thesis by simp
      next
        case (Cons d r)
        show ?thesis
        proof (cases "d = 0x5D")
          case True
          with eq ps arr Cons show ?thesis by simp
        next
          case False
          with eq ps arr Cons have "parse_elements (d # r) = Inl e"
            by (auto split: sum.splits)
          with 2(1) [OF arr Cons False] show ?thesis by blast
        qed
      qed
    next
      case obj
      show ?thesis
      proof (cases "skip_ws cs")
        case Nil
        with eq ps obj show ?thesis by simp
      next
        case (Cons d r)
        show ?thesis
        proof (cases "d = 0x7D")
          case True
          with eq ps obj Cons show ?thesis by simp
        next
          case False
          with eq ps obj Cons have "parse_members (d # r) = Inl e"
            by (auto split: sum.splits)
          with 2(2) [OF obj Cons False] show ?thesis by blast
        qed
      qed
    next
      case other
      with eq ps have
        "parse_literal (js ''true'') (JBool True) (c # cs) = Inl e
         \<or> parse_literal (js ''false'') (JBool False) (c # cs) = Inl e
         \<or> parse_literal (js ''null'') JNull (c # cs) = Inl e
         \<or> parse_number (c # cs) = Inl e"
        by (auto split: if_splits sum.splits)
      then show ?thesis
        by (auto dest: parse_literal_error parse_number_error)
    qed
  qed
next
  case 3
  show ?case by (simp add: parse_elements.simps(1))
next
  case (4 c cs)
  note ps = parse_elements.simps(2) [of c cs]
  show ?case
  proof (intro allI impI)
    fix e
    assume eq: "parse_elements (c # cs) = Inl e"
    show "e = SyntaxError"
    proof (cases "parse_value (c # cs)")
      case (Inl e')
      with eq ps have "e' = e" by simp
      with Inl 4(1) show ?thesis by blast
    next
      case (Inr vr)
      obtain v r where vr: "vr = (v, r)" by (cases vr)
      show ?thesis
      proof (cases "skip_ws r")
        case Nil
        with eq ps Inr vr show ?thesis by simp
      next
        case (Cons d r')
        consider (close) "d = 0x5D" | (comma) "d \<noteq> 0x5D" "d = 0x2C"
          | (bad) "d \<noteq> 0x5D" "d \<noteq> 0x2C" by blast
        then show ?thesis
        proof cases
          case close
          with eq ps Inr vr Cons show ?thesis by simp
        next
          case comma
          with eq ps Inr vr Cons have "parse_elements (skip_ws r') = Inl e"
            by (auto split: sum.splits)
          with 4(2) [OF Inr vr [symmetric] Cons comma] show ?thesis by blast
        next
          case bad
          with eq ps Inr vr Cons show ?thesis by simp
        qed
      qed
    qed
  qed
next
  case 5
  show ?case by (simp add: parse_members.simps(1))
next
  case (6 c cs)
  note ps = parse_members.simps(2) [of c cs]
  show ?case
  proof (intro allI impI)
    fix e
    assume eq: "parse_members (c # cs) = Inl e"
    show "e = SyntaxError"
    proof (cases "c = 0x22")
      case False
      with eq ps show ?thesis by simp
    next
      case q: True
      show ?thesis
      proof (cases "parse_chars cs")
        case (Inl e')
        with eq ps q have "e' = e" by simp
        with Inl show ?thesis by (auto dest: parse_chars_error)
      next
        case (Inr kr)
        obtain k r where kr: "kr = (k, r)" by (cases kr)
        show ?thesis
        proof (cases "skip_ws r")
          case Nil
          with eq ps q Inr kr show ?thesis by simp
        next
          case (Cons d r1)
          show ?thesis
          proof (cases "d = 0x3A")
            case False
            with eq ps q Inr kr Cons show ?thesis by simp
          next
            case colon: True
            show ?thesis
            proof (cases "parse_value (skip_ws r1)")
              case (Inl e')
              with eq ps q Inr kr Cons colon have "e' = e" by simp
              with Inl 6(1) [OF q Inr kr [symmetric] Cons colon] show ?thesis by blast
            next
              case pv: (Inr vr)
              obtain v r2 where vr: "vr = (v, r2)" by (cases vr)
              show ?thesis
              proof (cases "skip_ws r2")
                case Nil
                with eq ps q Inr kr Cons colon pv vr show ?thesis by simp
              next
                case c3: (Cons d' r3)
                consider (close) "d' = 0x7D" | (comma) "d' \<noteq> 0x7D" "d' = 0x2C"
                  | (bad) "d' \<noteq> 0x7D" "d' \<noteq> 0x2C" by blast
                then show ?thesis
                proof cases
                  case close
                  with eq ps q Inr kr Cons colon pv vr c3 show ?thesis by simp
                next
                  case comma
                  with eq ps q Inr kr Cons colon pv vr c3
                  have "parse_members (skip_ws r3) = Inl e"
                    by (auto split: sum.splits)
                  with 6(2) [OF q Inr kr [symmetric] Cons colon pv vr [symmetric] c3 comma]
                  show ?thesis by blast
                next
                  case bad
                  with eq ps q Inr kr Cons colon pv vr c3 show ?thesis by simp
                qed
              qed
            qed
          qed
        qed
      qed
    qed
  qed
qed

lemma JSON_parse_error: "JSON_parse s = Inl e \<Longrightarrow> e = SyntaxError"
  using parse_error(1) [of "skip_ws s"]
  by (auto simp: JSON_parse_def split: sum.splits if_splits)

section \<open>The handlers on a log of entries\<close>

text \<open>
  When the stored value is a log, no step of a handler throws: each row and each export
  line is built from the two strings of its entry.
\<close>

lemma keys_distinct: "js ''date'' \<noteq> js ''text''" "js ''text'' \<noteq> js ''date''"
  by (simp_all add: js_def)

lemma li_markup_entry: "li_markup (json_of_entry e) = Inr (entry_markup e)"
  by (simp add: li_markup_def json_of_entry_def get_prop_def template_subst_def entry_markup_def
      keys_distinct)

lemma export_line_entry: "export_line (json_of_entry e) idx = Inr (report_line (idx + 1) e)"
  by (simp add: export_line_def json_of_entry_def get_prop_def template_subst_def report_line_def
      keys_distinct)

lemma forEach_li_entries:
  "forEach_li data (map json_of_entry es) idx p =
     (None, p\<lparr>punchList := punchList p @ map (rendered_row data) (enumerate idx es)\<rparr>)"
proof (induction es arbitrary: idx p)
  case Nil
  show ?case by simp
next
  case (Cons e es)
  show ?case
    by (simp add: li_markup_entry Cons.IH rendered_row_def del_button_def)
qed

lemma forEach_li_simple_entries:
  "forEach_li_simple (map json_of_entry es) p =
     (None, p\<lparr>punchList := punchList p @ map plain_row es\<rparr>)"
proof (induction es arbitrary: p)
  case Nil
  show ?case by simp
next
  case (Cons e es)
  show ?case
    by (simp add: li_markup_entry Cons.IH plain_row_def)
qed

lemma getPunchData_simple_eq: "getPunchData_simple p = getPunchData p"
  by (simp add: getPunchData_simple_def getPunchData_def)

lemma renderPunchList_log:
  "getPunchData p = Inr (json_of_log es) \<Longrightarrow>
     renderPunchList p =
       (None, p\<lparr>punchList := map (rendered_row (map json_of_entry es)) (enumerate 0 (rev es))\<rparr>)"
  using forEach_li_entries [of "map json_of_entry es" "rev es" 0 "p\<lparr>punchList := []\<rparr>"]
  by (simp add: renderPunchList_def json_of_log_def rev_map)

lemma renderPunchList_simple_log:
  "getPunchData p = Inr (json_of_log es) \<Longrightarrow>
     renderPunchList_simple p = (None, p\<lparr>punchList := map plain_row (rev es)\<rparr>)"
  using forEach_li_simple_entries [of "rev es" "p\<lparr>punchList := []\<rparr>"]
  by (simp add: renderPunchList_simple_def getPunchData_simple_eq json_of_log_def rev_map)

lemma rendered_rows_markup:
  "map li_innerHTML (map (rendered_row data) (enumerate n es)) = map entry_markup es"
  by (simp add: rendered_row_def comp_def enumerate_eq_zip map_snd_zip_take flip: map_map [of entry_markup snd, unfolded comp_def])

lemma forEach_content_entries:
  "forEach_content (map json_of_entry es) idx content =
     Inr (content @ concat (map (\<lambda>je. report_line (Suc (fst je)) (snd je)) (enumerate idx es)))"
proof (induction es arbitrary: idx content)
  case Nil
  show ?case by simp
next
  case (Cons e es)
  show ?case by (simp add: export_line_entry Cons.IH)
qed

lemma report_enumerate:
  "concat (map (\<lambda>je. report_line (Suc (fst je)) (snd je)) (enumerate 0 es)) = export_report es"
proof -
  have "map (\<lambda>je. report_line (Suc (fst je)) (snd je)) (enumerate 0 es) =
        map (\<lambda>i. report_line (i + 1) (es ! i)) [0..<length es]"
    by (rule nth_equalityI) (simp_all add: nth_enumerate_eq)
  then show ?thesis by (simp add: export_report_def)
qed

lemma length_is_zero_log: "length_is_zero (json_of_log es) = Inr (es = [])"
  by (simp add: length_is_zero_def json_of_log_def)

lemma exportBtn_click_log:
  "getPunchData p = Inr (json_of_log es) \<Longrightarrow> es \<noteq> [] \<Longrightarrow>
     exportBtn_click p = (None, p\<lparr>downloads := downloads p @ [punch_file (export_report es)]\<rparr>)"
  using forEach_content_entries [of es 0 "[]"]
  by (simp add: exportBtn_click_def length_is_zero_log report_enumerate)
     (simp add: json_of_log_def report_enumerate)

lemma exportBtn_click_simple_eq: "exportBtn_click_simple p = exportBtn_click p"
  by (simp add: exportBtn_click_simple_def exportBtn_click_def getPunchData_simple_eq)

lemma splice_delete:
  "i < length xs \<Longrightarrow> splice (int (length xs) - 1 - int i) 1 xs = remove_at (length xs - 1 - i) xs"
proof -
  assume i: "i < length xs"
  let ?n = "int (length xs)"
  let ?start = "?n - 1 - int i"
  from i have start: "0 \<le> ?start" "?start < ?n" by simp_all
  then have a: "(if ?start < 0 then max (?n + ?start) 0 else min ?start ?n) = ?start"
    by simp
  from start have c: "min (max 1 0) (?n - ?start) = (1::int)" by simp
  from i have k: "nat ?start = length xs - 1 - i" and k': "nat (?start + 1) = Suc (length xs - 1 - i)"
    by linarith+
  show ?thesis
    unfolding splice_def Let_def a c k k' remove_at_def ..
qed

lemma forEach_li_punchData:
  "punchData (snd (forEach_li data items idx p)) = punchData p"
  by (induction items arbitrary: idx p) (simp_all split: sum.splits)

lemma forEach_li_simple_punchData:
  "punchData (snd (forEach_li_simple items p)) = punchData p"
  by (induction items arbitrary: p) (simp_all split: sum.splits)

lemma renderPunchList_punchData: "punchData (snd (renderPunchList p)) = punchData p"
  by (simp add: renderPunchList_def Let_def forEach_li_punchData split: sum.splits json.splits)

lemma renderPunchList_simple_punchData: "punchData (snd (renderPunchList_simple p)) = punchData p"
  by (simp add: renderPunchList_simple_def Let_def forEach_li_simple_punchData
      split: sum.splits json.splits)

lemma punchForm_submit_log:
  assumes "trim (punchInput_value p) \<noteq> []" and "getPunchData p = Inr (json_of_log es)"
  shows "punchForm_submit D p =
     (None, p\<lparr>punchData := Some (JSON_stringify (json_of_log
               (es @ [\<lparr>entry_text = trim (punchInput_value p), entry_date = D\<rparr>]))),
             punchInput_value := [],
             punchList := map (rendered_row (map json_of_entry
               (es @ [\<lparr>entry_text = trim (punchInput_value p), entry_date = D\<rparr>])))
               (enumerate 0 (rev (es @ [\<lparr>entry_text = trim (punchInput_value p), entry_date = D\<rparr>])))\<rparr>)"
proof -
  let ?e = "\<lparr>entry_text = trim (punchInput_value p), entry_date = D\<rparr>"
  let ?p2 = "(savePunchData (json_of_log (es @ [?e])) p)\<lparr>punchInput_value := []\<rparr>"
  have pu: "push (json_of_log es)
      (JObj [(js ''text'', JStr (trim (punchInput_value p))), (js ''date'', JStr D)]) =
      Inr (json_of_log (es @ [?e]))"
    by (simp add: push_def json_of_log_def json_of_entry_def)
  have "getPunchData ?p2 = Inr (json_of_log (es @ [?e]))"
    by (rule getPunchData_saved_log) (simp add: savePunchData_def)
  then have "renderPunchList ?p2 =
      (None, ?p2\<lparr>punchList := map (rendered_row (map json_of_entry (es @ [?e])))
         (enumerate 0 (rev (es @ [?e])))\<rparr>)"
    by (rule renderPunchList_log)
  with assms pu show ?thesis
    by (simp add: punchForm_submit_def Let_def savePunchData_def)
qed

lemma punchForm_submit_simple_log:
  assumes "trim (punchInput_value p) \<noteq> []" and "getPunchData p = Inr (json_of_log es)"
  shows "punchForm_submit_simple D p =
     (None, p\<lparr>punchData := Some (JSON_stringify (json_of_log
               (es @ [\<lparr>entry_text = trim (punchInput_value p), entry_date = D\<rparr>]))),
             punchInput_value := [],
             punchList := map plain_row
               (rev (es @ [\<lparr>entry_text = trim (punchInput_value p), entry_date = D\<rparr>]))\<rparr>)"
proof -
  let ?e = "\<lparr>entry_text = trim (punchInput_value p), entry_date = D\<rparr>"
  let ?p2 = "(savePunchData_simple (json_of_log (es @ [?e])) p)\<lparr>punchInput_value := []\<rparr>"
  have pu: "push (json_of_log es)
      (JObj [(js ''text'', JStr (trim (punchInput_value p))), (js ''date'', JStr D)]) =
      Inr (json_of_log (es @ [?e]))"
    by (simp add: push_def json_of_log_def json_of_entry_def)
  have "getPunchData ?p2 = Inr (json_of_log (es @ [?e]))"
    by (rule getPunchData_saved_log) (simp add: savePunchData_simple_def)
  then have "renderPunchList_simple ?p2 = (None, ?p2\<lparr>punchList := map plain_row (rev (es @ [?e]))\<rparr>)"
    by (rule renderPunchList_simple_log)
  with assms pu show ?thesis
    by (simp add: punchForm_submit_simple_def Let_def savePunchData_simple_def
        getPunchData_simple_eq)
qed

lemma click_delBtn_log:
  assumes h: "getPunchData p = Inr (json_of_log es)" and i: "i < length es"
  shows "click_delBtn i (snd (renderPunchList p)) =
     (None, p\<lparr>punchData := Some (JSON_stringify (json_of_log (remove_at (length es - 1 - i) es))),
             punchList := map (rendered_row (map json_of_entry (remove_at (length es - 1 - i) es)))
               (enumerate 0 (rev (remove_at (length es - 1 - i) es)))\<rparr>)"
proof -
  let ?data = "map json_of_entry es"
  let ?p1 = "p\<lparr>punchList := map (rendered_row ?data) (enumerate 0 (rev es))\<rparr>"
  let ?es' = "remove_at (length es - 1 - i) es"
  have r: "renderPunchList p = (None, ?p1)" by (rule renderPunchList_log [OF h])
  have row: "punchList ?p1 ! i = rendered_row ?data (i, rev es ! i)"
    using i by (simp add: nth_enumerate_eq)
  have sp: "splice (int (length ?data) - 1 - int i) 1 ?data = map json_of_entry ?es'"
    using i splice_delete [of i ?data] by (simp add: remove_at_def take_map drop_map)
  let ?p2 = "savePunchData (json_of_log ?es') ?p1"
  have "getPunchData ?p2 = Inr (json_of_log ?es')"
    by (rule getPunchData_saved_log) (simp add: savePunchData_def)
  then have r2: "renderPunchList ?p2 =
      (None, ?p2\<lparr>punchList := map (rendered_row (map json_of_entry ?es')) (enumerate 0 (rev ?es'))\<rparr>)"
    by (rule renderPunchList_log)
  have "click_delBtn i (snd (renderPunchList p)) = click_delBtn i ?p1"
    by (simp add: r)
  also have "\<dots> = delBtn_onclick ?data i ?p1"
    using i row by (simp add: click_delBtn_def rendered_row_def del_button_def)
  also have "\<dots> = renderPunchList ?p2"
    unfolding delBtn_onclick_def Let_def sp by (simp add: json_of_log_def)
  also note r2
  also have "(None, ?p2\<lparr>punchList := map (rendered_row (map json_of_entry ?es'))
        (enumerate 0 (rev ?es'))\<rparr>) =
      (None, p\<lparr>punchData := Some (JSON_stringify (json_of_log ?es')),
             punchList := map (rendered_row (map json_of_entry ?es')) (enumerate 0 (rev ?es'))\<rparr>)"
    by (simp add: savePunchData_def)
  finally show ?thesis .
qed

lemma export_report_AB:
  "export_report [entry_A, entry_B] =
     [0x3010] @ js ''1'' @ [0x3011] @ js ''D1'' @ [0xFF1A] @ js ''A'' @ [0x0A]
     @ [0x3010] @ js ''2'' @ [0x3011] @ js ''D2'' @ [0xFF1A] @ js ''B'' @ [0x0A]"
  by (simp add: export_report_def report_line_def entry_A_def entry_B_def js_def dec.simps
      upt_rec [of 0 2] upt_rec [of 1 2])

section \<open>One variant simulates the other\<close>

lemma strip_buttons_append:
  "strip_buttons (p\<lparr>punchList := punchList p @ [\<lparr>li_innerHTML = h, li_delBtn = b\<rparr>]\<rparr>) =
     (strip_buttons p)\<lparr>punchList := punchList (strip_buttons p) @
        [\<lparr>li_innerHTML = h, li_delBtn = None\<rparr>]\<rparr>"
  by (simp add: strip_buttons_def)

lemma forEach_li_strip:
  "forEach_li_simple items (strip_buttons p) = map_prod id strip_buttons (forEach_li data items idx p)"
proof (induction items arbitrary: idx p)
  case Nil
  show ?case by simp
next
  case (Cons item items)
  show ?case
  proof (cases "li_markup item")
    case (Inl e)
    then show ?thesis by simp
  next
    case (Inr h)
    then show ?thesis
      using Cons.IH [of "p\<lparr>punchList := punchList p @
          [\<lparr>li_innerHTML = h, li_delBtn = Some \<lparr>btn_textContent = delete_label,
             btn_marginLeft = js ''10px'', btn_data = data, btn_idx = idx\<rparr>\<rparr>]\<rparr>" "idx + 1"]
      by (simp add: strip_buttons_append)
  qed
qed

lemma getPunchData_strip: "getPunchData_simple (strip_buttons p) = getPunchData p"
  by (simp add: getPunchData_simple_def getPunchData_def strip_buttons_def)

lemma savePunchData_strip:
  "savePunchData_simple v (strip_buttons p) = strip_buttons (savePunchData v p)"
  by (simp add: savePunchData_simple_def savePunchData_def strip_buttons_def)

lemma renderPunchList_strip:
  "renderPunchList_simple (strip_buttons p) = map_prod id strip_buttons (renderPunchList p)"
proof (cases "getPunchData p")
  case (Inl e)
  then show ?thesis
    by (simp add: renderPunchList_simple_def renderPunchList_def getPunchData_strip)
next
  case (Inr v)
  have e: "(strip_buttons p)\<lparr>punchList := []\<rparr> = strip_buttons (p\<lparr>punchList := []\<rparr>)"
    by (simp add: strip_buttons_def)
  show ?thesis
  proof (cases v)
    case (JArr xs)
    with Inr show ?thesis
      using forEach_li_strip [of "rev xs" "p\<lparr>punchList := []\<rparr>" xs 0]
      by (simp add: renderPunchList_simple_def renderPunchList_def getPunchData_strip e)
  qed (use Inr in \<open>simp_all add: renderPunchList_simple_def renderPunchList_def
      getPunchData_strip e\<close>)
qed

lemma punchForm_submit_strip:
  "punchForm_submit_simple D (strip_buttons p) = map_prod id strip_buttons (punchForm_submit D p)"
proof -
  have v: "punchInput_value (strip_buttons p) = punchInput_value p"
    by (simp add: strip_buttons_def)
  have u: "(strip_buttons q)\<lparr>punchInput_value := []\<rparr> = strip_buttons (q\<lparr>punchInput_value := []\<rparr>)"
    for q by (simp add: strip_buttons_def)
  show ?thesis
    by (simp add: punchForm_submit_simple_def punchForm_submit_def Let_def v getPunchData_strip
        savePunchData_strip u renderPunchList_strip split: sum.splits)
qed

lemma exportBtn_click_strip:
  "exportBtn_click_simple (strip_buttons p) = map_prod id strip_buttons (exportBtn_click p)"
proof -
  have a: "(strip_buttons p)\<lparr>alerts := x\<rparr> = strip_buttons (p\<lparr>alerts := x\<rparr>)"
    and d: "(strip_buttons p)\<lparr>downloads := y\<rparr> = strip_buttons (p\<lparr>downloads := y\<rparr>)"
    and a': "alerts (strip_buttons p) = alerts p"
    and d': "downloads (strip_buttons p) = downloads p" for x y
    by (simp_all add: strip_buttons_def)
  show ?thesis
    by (simp add: exportBtn_click_simple_def exportBtn_click_def getPunchData_strip a d a' d'
        split: sum.splits bool.splits json.splits)
qed

section \<open>The properties of the specification\<close>

text \<open>
  C1. The submit listener, in both variants. When the trimmed value of the input field
  is empty, nothing changes: the stored log, the input field and the rest of the page
  stay as they are. Otherwise, for every current log \<open>es\<close>, the listener ends without
  an exception, the stored value is the serialization of \<open>es\<close> followed by the one new
  entry made of the trimmed value and the date string of the submit, reading it back
  gives exactly that log, and the input field is empty.
\<close>

theorem submit_contract:
  "(trim (punchInput_value p) = [] \<longrightarrow>
      punchForm_submit D p = (None, p) \<and> punchForm_submit_simple D p = (None, p))
   \<and> (trim (punchInput_value p) \<noteq> [] \<and> getPunchData p = Inr (json_of_log es) \<longrightarrow>
        fst (punchForm_submit D p) = None
      \<and> punchData (snd (punchForm_submit D p)) =
          Some (JSON_stringify (json_of_log
            (es @ [\<lparr>entry_text = trim (punchInput_value p), entry_date = D\<rparr>])))
      \<and> getPunchData (snd (punchForm_submit D p)) =
          Inr (json_of_log (es @ [\<lparr>entry_text = trim (punchInput_value p), entry_date = D\<rparr>]))
      \<and> punchInput_value (snd (punchForm_submit D p)) = []
      \<and> fst (punchForm_submit_simple D p) = None
      \<and> punchData (snd (punchForm_submit_simple D p)) =
          Some (JSON_stringify (json_of_log
            (es @ [\<lparr>entry_text = trim (punchInput_value p), entry_date = D\<rparr>])))
      \<and> getPunchData_simple (snd (punchForm_submit_simple D p)) =
          Inr (json_of_log (es @ [\<lparr>entry_text = trim (punchInput_value p), entry_date = D\<rparr>]))
      \<and> punchInput_value (snd (punchForm_submit_simple D p)) = [])"
proof (intro conjI impI)
  assume "trim (punchInput_value p) = []"
  then show "punchForm_submit D p = (None, p)" "punchForm_submit_simple D p = (None, p)"
    by (simp_all add: punchForm_submit_def punchForm_submit_simple_def)
next
  assume h: "trim (punchInput_value p) \<noteq> [] \<and> getPunchData p = Inr (json_of_log es)"
  note r = punchForm_submit_log [OF conjunct1 [OF h] conjunct2 [OF h], of D]
  note s = punchForm_submit_simple_log [OF conjunct1 [OF h] conjunct2 [OF h], of D]
  show "fst (punchForm_submit D p) = None" by (simp add: r)
  show "punchData (snd (punchForm_submit D p)) =
      Some (JSON_stringify (json_of_log
        (es @ [\<lparr>entry_text = trim (punchInput_value p), entry_date = D\<rparr>])))"
    by (simp add: r)
  show "getPunchData (snd (punchForm_submit D p)) =
      Inr (json_of_log (es @ [\<lparr>entry_text = trim (punchInput_value p), entry_date = D\<rparr>]))"
    by (rule getPunchData_saved_log) (simp add: r)
  show "punchInput_value (snd (punchForm_submit D p)) = []" by (simp add: r)
  show "fst (punchForm_submit_simple D p) = None" by (simp add: s)
  show "punchData (snd (punchForm_submit_simple D p)) =
      Some (JSON_stringify (json_of_log
        (es @ [\<lparr>entry_text = trim (punchInput_value p), entry_date = D\<rparr>])))"
    by (simp add: s)
  show "getPunchData_simple (snd (punchForm_submit_simple D p)) =
      Inr (json_of_log (es @ [\<lparr>entry_text = trim (punchInput_value p), entry_date = D\<rparr>]))"
    by (rule getPunchData_simple_saved_log) (simp add: s)
  show "punchInput_value (snd (punchForm_submit_simple D p)) = []" by (simp add: s)
qed

theorem submit_contract_witness:
  "punchForm_submit (js ''D3'') (page_AB\<lparr>punchInput_value := js ''   ''\<rparr>) =
     (None, page_AB\<lparr>punchInput_value := js ''   ''\<rparr>)
   \<and> punchForm_submit_simple (js ''D3'') (page_AB\<lparr>punchInput_value := js ''   ''\<rparr>) =
     (None, page_AB\<lparr>punchInput_value := js ''   ''\<rparr>)
   \<and> fst (punchForm_submit (js ''D3'') (page_AB\<lparr>punchInput_value := js ''  C ''\<rparr>)) = None
   \<and> punchData (snd (punchForm_submit (js ''D3'') (page_AB\<lparr>punchInput_value := js ''  C ''\<rparr>))) =
     Some (js ''[{\"text\":\"A\",\"date\":\"D1\"},{\"text\":\"B\",\"date\":\"D2\"},{\"text\":\"C\",\"date\":\"D3\"}]'')
   \<and> getPunchData (snd (punchForm_submit (js ''D3'') (page_AB\<lparr>punchInput_value := js ''  C ''\<rparr>))) =
     Inr (json_of_log [entry_A, entry_B, entry_C])
   \<and> punchInput_value (snd (punchForm_submit (js ''D3'') (page_AB\<lparr>punchInput_value := js ''  C ''\<rparr>))) = []
   \<and> getPunchData_simple
       (snd (punchForm_submit_simple (js ''D3'') (page_AB\<lparr>punchInput_value := js ''  C ''\<rparr>))) =
     Inr (json_of_log [entry_A, entry_B, entry_C])"
proof -
  have load: "getPunchData (page_AB\<lparr>punchInput_value := v\<rparr>) = Inr (json_of_log [entry_A, entry_B])"
    for v
    using getPunchData_page_AB by (simp add: getPunchData_def)
  have c: "\<lparr>entry_text = js ''C'', entry_date = js ''D3''\<rparr> = entry_C"
    by (simp add: entry_C_def)
  have ne: "js ''C'' \<noteq> []"
    by (simp add: js_def)
  show ?thesis
    using submit_contract [of "page_AB\<lparr>punchInput_value := js ''   ''\<rparr>" "js ''D3''" "[]"]
      submit_contract [of "page_AB\<lparr>punchInput_value := js ''  C ''\<rparr>" "js ''D3''"
        "[entry_A, entry_B]"]
    by (simp add: trim_blank trim_C ne load c stringify_ABC)
qed

text \<open>
  C2. Export, in both variants: for every non-empty log, the export listener offers one
  file, named \<open>punch.txt\<close>, whose content is the concatenation, in insertion order, of
  the lines made of the 1-based position between the brackets, the date, the colon, the
  text and a line feed. For the log of the entries A at D1 and B at D2 the content is the
  two lines written out below.
\<close>

theorem export_content:
  "getPunchData p = Inr (json_of_log es) \<and> es \<noteq> [] \<longrightarrow>
     exportBtn_click p = (None, p\<lparr>downloads := downloads p @ [punch_file (export_report es)]\<rparr>)
   \<and> exportBtn_click_simple p =
       (None, p\<lparr>downloads := downloads p @ [punch_file (export_report es)]\<rparr>)
   \<and> file_name (punch_file (export_report es)) = js ''punch.txt''
   \<and> file_content (punch_file (export_report es)) = export_report es"
  by (simp add: exportBtn_click_simple_eq exportBtn_click_log punch_file_def)

theorem export_content_witness:
  "exportBtn_click page_AB =
     (None, page_AB\<lparr>downloads :=
        [\<lparr>file_name = js ''punch.txt'', file_type = js ''text/plain'',
          file_content =
            [0x3010] @ js ''1'' @ [0x3011] @ js ''D1'' @ [0xFF1A] @ js ''A'' @ [0x0A]
            @ [0x3010] @ js ''2'' @ [0x3011] @ js ''D2'' @ [0xFF1A] @ js ''B'' @ [0x0A]\<rparr>]\<rparr>)
   \<and> exportBtn_click_simple page_AB = exportBtn_click page_AB"
proof -
  have ne: "[entry_A, entry_B] \<noteq> []" by simp
  have d: "downloads page_AB = []" by (simp add: page_AB_def blank_page_def)
  show ?thesis
    using export_content [of page_AB "[entry_A, entry_B]"] getPunchData_page_AB ne
    by (simp add: export_report_AB punch_file_def d)
qed

text \<open>
  C3. Positional delete, in the variant that has it: for every log of \<open>n\<close> entries and
  every display position \<open>i < n\<close>, the row rendered at position \<open>i\<close> shows the entry at
  original index \<open>n - 1 - i\<close>, and a click on its delete button ends without an
  exception, stores the log without exactly that entry, the others unchanged in their
  order, and renders the shortened log again. For the log of three entries, deleting
  the row at display position 1 leaves the first and the third.
\<close>

theorem positional_delete:
  "getPunchData p = Inr (json_of_log es) \<and> i < length es \<longrightarrow>
     li_innerHTML (punchList (snd (renderPunchList p)) ! i) = entry_markup (es ! (length es - 1 - i))
   \<and> fst (click_delBtn i (snd (renderPunchList p))) = None
   \<and> punchData (snd (click_delBtn i (snd (renderPunchList p)))) =
       Some (JSON_stringify (json_of_log (remove_at (length es - 1 - i) es)))
   \<and> getPunchData (snd (click_delBtn i (snd (renderPunchList p)))) =
       Inr (json_of_log (remove_at (length es - 1 - i) es))
   \<and> map li_innerHTML (punchList (snd (click_delBtn i (snd (renderPunchList p))))) =
       map entry_markup (rev (remove_at (length es - 1 - i) es))"
proof (intro impI)
  assume a: "getPunchData p = Inr (json_of_log es) \<and> i < length es"
  then have h: "getPunchData p = Inr (json_of_log es)" and i: "i < length es" by simp_all
  note c = click_delBtn_log [OF h i]
  have row: "li_innerHTML (punchList (snd (renderPunchList p)) ! i) =
      entry_markup (es ! (length es - 1 - i))"
    using i by (simp add: renderPunchList_log [OF h] nth_enumerate_eq rendered_row_def rev_nth)
  have load: "getPunchData (snd (click_delBtn i (snd (renderPunchList p)))) =
      Inr (json_of_log (remove_at (length es - 1 - i) es))"
    by (rule getPunchData_saved_log) (simp add: c)
  have rows: "map li_innerHTML (punchList (snd (click_delBtn i (snd (renderPunchList p))))) =
      map entry_markup (rev (remove_at (length es - 1 - i) es))"
    by (simp add: c rendered_rows_markup del: map_map)
  from row load rows show
    "li_innerHTML (punchList (snd (renderPunchList p)) ! i) = entry_markup (es ! (length es - 1 - i))
   \<and> fst (click_delBtn i (snd (renderPunchList p))) = None
   \<and> punchData (snd (click_delBtn i (snd (renderPunchList p)))) =
       Some (JSON_stringify (json_of_log (remove_at (length es - 1 - i) es)))
   \<and> getPunchData (snd (click_delBtn i (snd (renderPunchList p)))) =
       Inr (json_of_log (remove_at (length es - 1 - i) es))
   \<and> map li_innerHTML (punchList (snd (click_delBtn i (snd (renderPunchList p))))) =
       map entry_markup (rev (remove_at (length es - 1 - i) es))"
    by (simp add: c)
qed

theorem positional_delete_witness:
  "li_innerHTML (punchList (snd (renderPunchList page_ABC)) ! 1) = entry_markup entry_B
   \<and> fst (click_delBtn 1 (snd (renderPunchList page_ABC))) = None
   \<and> punchData (snd (click_delBtn 1 (snd (renderPunchList page_ABC)))) =
       Some (js ''[{\"text\":\"A\",\"date\":\"D1\"},{\"text\":\"C\",\"date\":\"D3\"}]'')
   \<and> getPunchData (snd (click_delBtn 1 (snd (renderPunchList page_ABC)))) =
       Inr (json_of_log [entry_A, entry_C])
   \<and> map li_innerHTML (punchList (snd (click_delBtn 1 (snd (renderPunchList page_ABC))))) =
       [entry_markup entry_C, entry_markup entry_A]"
proof -
  have rm: "remove_at (length [entry_A, entry_B, entry_C] - 1 - 1) [entry_A, entry_B, entry_C] =
      [entry_A, entry_C]"
    by (simp add: remove_at_def)
  have st: "JSON_stringify (json_of_log [entry_A, entry_C]) =
      js ''[{\"text\":\"A\",\"date\":\"D1\"},{\"text\":\"C\",\"date\":\"D3\"}]''"
    by (simp add: json_of_log_def json_of_entry_def entry_A_def entry_C_def js_def
        QuoteJSONString_def quote_unit_def is_lead_def is_trail_def)
  have i: "1 < length [entry_A, entry_B, entry_C]" by simp
  show ?thesis
    using positional_delete [of page_ABC "[entry_A, entry_B, entry_C]" 1] getPunchData_page_ABC i
    unfolding rm st by simp
qed

text \<open>
  C4. Round trip: for every list of entries, saving it with \<open>savePunchData\<close> and then
  reading with \<open>getPunchData\<close> returns the same list, order and content preserved; in
  both variants.
\<close>

theorem load_save_roundtrip:
  "getPunchData (savePunchData (json_of_log es) p) = Inr (json_of_log es)
   \<and> getPunchData_simple (savePunchData_simple (json_of_log es) p) = Inr (json_of_log es)"
  by (simp add: getPunchData_saved_log getPunchData_simple_saved_log savePunchData_def
      savePunchData_simple_def)

theorem load_save_roundtrip_witness:
  "punchData (savePunchData (json_of_log [entry_A, entry_B]) blank_page) =
     Some (js ''[{\"text\":\"A\",\"date\":\"D1\"},{\"text\":\"B\",\"date\":\"D2\"}]'')
   \<and> getPunchData (savePunchData (json_of_log [entry_A, entry_B]) blank_page) =
     Inr (json_of_log [entry_A, entry_B])
   \<and> getPunchData_simple (savePunchData_simple (json_of_log [entry_A, entry_B]) blank_page) =
     Inr (json_of_log [entry_A, entry_B])"
  using load_save_roundtrip [of "[entry_A, entry_B]" blank_page]
  by (simp add: savePunchData_def stringify_AB)

text \<open>
  C5. Rendering, in both variants: it never changes the stored value, and for every log
  of \<open>n\<close> entries it ends without an exception and shows exactly \<open>n\<close> rows, in reverse
  insertion order, each with the text and the date of its entry. The log of three
  entries renders as the third, the second, the first.
\<close>

theorem render_reverse_order:
  "punchData (snd (renderPunchList p)) = punchData p
   \<and> punchData (snd (renderPunchList_simple p)) = punchData p
   \<and> (getPunchData p = Inr (json_of_log es) \<longrightarrow>
        fst (renderPunchList p) = None
      \<and> map li_innerHTML (punchList (snd (renderPunchList p))) = map entry_markup (rev es)
      \<and> length (punchList (snd (renderPunchList p))) = length es
      \<and> fst (renderPunchList_simple p) = None
      \<and> map li_innerHTML (punchList (snd (renderPunchList_simple p))) = map entry_markup (rev es)
      \<and> length (punchList (snd (renderPunchList_simple p))) = length es)"
proof (intro conjI impI)
  show "punchData (snd (renderPunchList p)) = punchData p"
    by (rule renderPunchList_punchData)
  show "punchData (snd (renderPunchList_simple p)) = punchData p"
    by (rule renderPunchList_simple_punchData)
next
  assume h: "getPunchData p = Inr (json_of_log es)"
  note r = renderPunchList_log [OF h]
  note s = renderPunchList_simple_log [OF h]
  show "fst (renderPunchList p) = None" by (simp add: r)
  show "map li_innerHTML (punchList (snd (renderPunchList p))) = map entry_markup (rev es)"
    by (simp add: r rendered_rows_markup del: map_map)
  show "length (punchList (snd (renderPunchList p))) = length es" by (simp add: r)
  show "fst (renderPunchList_simple p) = None" by (simp add: s)
  show "map li_innerHTML (punchList (snd (renderPunchList_simple p))) = map entry_markup (rev es)"
    by (simp add: s plain_row_def comp_def)
  show "length (punchList (snd (renderPunchList_simple p))) = length es" by (simp add: s)
qed

theorem render_reverse_order_witness:
  "map li_innerHTML (punchList (snd (renderPunchList page_ABC))) =
     [entry_markup entry_C, entry_markup entry_B, entry_markup entry_A]
   \<and> map li_innerHTML (punchList (snd (renderPunchList_simple page_ABC))) =
     [entry_markup entry_C, entry_markup entry_B, entry_markup entry_A]
   \<and> entry_markup entry_C = js ''<span>C</span><span class=\"date\">D3</span>''
   \<and> length (punchList (snd (renderPunchList page_ABC))) = 3
   \<and> punchData (snd (renderPunchList page_ABC)) = punchData page_ABC
   \<and> punchData (snd (renderPunchList_simple page_ABC)) = punchData page_ABC"
  using render_reverse_order [of page_ABC "[entry_A, entry_B, entry_C]"] getPunchData_page_ABC
  by (simp add: entry_markup_def entry_C_def js_def)

text \<open>
  C6. Empty export, in both variants: when the log is empty the export listener raises
  the no-data alert exactly once and does nothing else; no file is offered and the stored
  value is unchanged.
\<close>

theorem empty_export_guard:
  "getPunchData p = Inr (JArr []) \<longrightarrow>
     exportBtn_click p = (None, p\<lparr>alerts := alerts p @ [no_data_message]\<rparr>)
   \<and> exportBtn_click_simple p = (None, p\<lparr>alerts := alerts p @ [no_data_message]\<rparr>)
   \<and> downloads (snd (exportBtn_click p)) = downloads p
   \<and> punchData (snd (exportBtn_click p)) = punchData p
   \<and> downloads (snd (exportBtn_click_simple p)) = downloads p
   \<and> punchData (snd (exportBtn_click_simple p)) = punchData p"
  by (simp add: exportBtn_click_simple_eq exportBtn_click_def length_is_zero_def)

theorem empty_export_guard_witness:
  "exportBtn_click blank_page = (None, blank_page\<lparr>alerts := [no_data_message]\<rparr>)
   \<and> exportBtn_click_simple blank_page = (None, blank_page\<lparr>alerts := [no_data_message]\<rparr>)
   \<and> downloads (snd (exportBtn_click blank_page)) = []
   \<and> punchData (snd (exportBtn_click blank_page)) = None"
proof -
  have "getPunchData blank_page = Inr (JArr [])"
    by (simp add: getPunchData_def blank_page_def)
  with empty_export_guard [of blank_page] show ?thesis
    by (simp add: blank_page_def)
qed

text \<open>
  C7 says that every stored value that is present and is not serialized Entry-array data
  makes \<open>getPunchData\<close> fail with a parse error. Two stored values show otherwise, in
  both variants: the empty string, which is not JSON at all, loads as the empty list;
  and the text \<open>null\<close>, which is JSON but no array, loads as \<open>null\<close>.
\<close>

theorem malformed_data_counterexample:
  "\<not> valid_log_text []
   \<and> getPunchData (blank_page\<lparr>punchData := Some []\<rparr>) = Inr (JArr [])
   \<and> getPunchData_simple (blank_page\<lparr>punchData := Some []\<rparr>) = Inr (JArr [])
   \<and> \<not> valid_log_text (js ''null'')
   \<and> getPunchData (blank_page\<lparr>punchData := Some (js ''null'')\<rparr>) = Inr JNull
   \<and> getPunchData_simple (blank_page\<lparr>punchData := Some (js ''null'')\<rparr>) = Inr JNull"
proof -
  have "JSON_parse [] = Inl SyntaxError"
    by (simp add: JSON_parse_def skip_ws_def)
  moreover have "js ''null'' \<noteq> []" by (simp add: js_def)
  ultimately show ?thesis
    by (simp add: valid_log_text_def getPunchData_def getPunchData_simple_def parse_null)
qed

text \<open>
  C7, amended. In both variants: an absent value and the empty string load as the empty
  list; a present, non-empty value that is not JSON makes \<open>getPunchData\<close> fail with
  the parse error, which nothing catches; a present, non-empty value that is JSON is
  returned as parsed, whether or not it is an array of entries.
\<close>

theorem load_contract:
  "(punchData p = None \<or> punchData p = Some [] \<longrightarrow>
      getPunchData p = Inr (JArr []) \<and> getPunchData_simple p = Inr (JArr []))
   \<and> (punchData p = Some raw \<and> raw \<noteq> [] \<and> isl (JSON_parse raw) \<longrightarrow>
      getPunchData p = Inl SyntaxError \<and> getPunchData_simple p = Inl SyntaxError)
   \<and> (punchData p = Some raw \<and> raw \<noteq> [] \<and> JSON_parse raw = Inr v \<longrightarrow>
      getPunchData p = Inr v \<and> getPunchData_simple p = Inr v)"
proof (intro conjI impI)
  assume "punchData p = None \<or> punchData p = Some []"
  then show "getPunchData p = Inr (JArr [])" "getPunchData_simple p = Inr (JArr [])"
    by (auto simp: getPunchData_def getPunchData_simple_def)
next
  assume a: "punchData p = Some raw \<and> raw \<noteq> [] \<and> isl (JSON_parse raw)"
  then obtain e where "JSON_parse raw = Inl e" by (auto simp: isl_def)
  moreover from this have "e = SyntaxError" by (rule JSON_parse_error)
  ultimately show "getPunchData p = Inl SyntaxError" "getPunchData_simple p = Inl SyntaxError"
    using a by (simp_all add: getPunchData_def getPunchData_simple_def)
next
  assume "punchData p = Some raw \<and> raw \<noteq> [] \<and> JSON_parse raw = Inr v"
  then show "getPunchData p = Inr v" "getPunchData_simple p = Inr v"
    by (simp_all add: getPunchData_def getPunchData_simple_def)
qed

theorem load_contract_witness:
  "getPunchData blank_page = Inr (JArr [])
   \<and> getPunchData_simple blank_page = Inr (JArr [])
   \<and> getPunchData (blank_page\<lparr>punchData := Some (js ''{'')\<rparr>) = Inl SyntaxError
   \<and> getPunchData_simple (blank_page\<lparr>punchData := Some (js ''{'')\<rparr>) = Inl SyntaxError
   \<and> getPunchData (blank_page\<lparr>punchData := Some (js ''null'')\<rparr>) = Inr JNull
   \<and> getPunchData page_AB = Inr (json_of_log [entry_A, entry_B])"
proof -
  have ne: "js ''{'' \<noteq> []" "js ''null'' \<noteq> []"
    "js ''[{\"text\":\"A\",\"date\":\"D1\"},{\"text\":\"B\",\"date\":\"D2\"}]'' \<noteq> []"
    by (simp_all add: js_def)
  have n: "punchData blank_page = None" by (simp add: blank_page_def)
  show ?thesis
    using load_contract [of blank_page]
      load_contract [of "blank_page\<lparr>punchData := Some (js ''{'')\<rparr>" "js ''{''"]
      load_contract [of "blank_page\<lparr>punchData := Some (js ''null'')\<rparr>" "js ''null''" JNull]
      load_contract [of page_AB
        "js ''[{\"text\":\"A\",\"date\":\"D1\"},{\"text\":\"B\",\"date\":\"D2\"}]''"
        "json_of_log [entry_A, entry_B]"]
    by (simp add: ne n parse_brace parse_null parse_AB page_AB_def)
qed

text \<open>
  C8. Clear-all: on every page, when the user confirms, the listener ends without an
  exception, the stored value is the serialization of the empty list, no row is left and
  reading back gives the empty list; when the user declines, the page is exactly as it
  was.
\<close>

theorem clear_all:
  "clearAllBtn_click True p = (None, p\<lparr>punchData := Some (JSON_stringify (JArr [])), punchList := []\<rparr>)
   \<and> getPunchData (snd (clearAllBtn_click True p)) = Inr (JArr [])
   \<and> clearAllBtn_click False p = (None, p)"
  by (simp add: clearAllBtn_click_def renderPunchList_def savePunchData_def getPunchData_def
      parse_empty_array)

theorem clear_all_witness:
  "getPunchData (snd (clearAllBtn_click True page_AB)) = Inr (JArr [])
   \<and> punchData (snd (clearAllBtn_click True page_AB)) = Some (js ''[]'')
   \<and> clearAllBtn_click False page_AB = (None, page_AB)
   \<and> getPunchData (snd (clearAllBtn_click False page_AB)) = Inr (json_of_log [entry_A, entry_B])"
proof -
  note c = clear_all [of page_AB]
  from c have "getPunchData (snd (clearAllBtn_click True page_AB)) = Inr (JArr [])"
    by (rule conjunct1 [OF conjunct2])
  moreover from c have "punchData (snd (clearAllBtn_click True page_AB)) = Some (js ''[]'')"
    by (simp add: js_def)
  moreover from c have "clearAllBtn_click False page_AB = (None, page_AB)"
    by (rule conjunct2 [OF conjunct2])
  ultimately show ?thesis
    using getPunchData_page_AB by simp
qed

text \<open>
  C9. The operations the two variants share agree. On every page, loading, saving,
  rendering, submitting and exporting in the variant without delete buttons, started from
  the page seen without its buttons, give what the other variant gives, seen without its
  buttons: the same exception if any, the same stored value, the same input field, the
  same alerts, the same exported file and the same rows in the same order. Seeing a page
  without its buttons changes none of these.
\<close>

theorem variants_agree:
  "getPunchData_simple (strip_buttons p) = getPunchData p
   \<and> savePunchData_simple v (strip_buttons p) = strip_buttons (savePunchData v p)
   \<and> renderPunchList_simple (strip_buttons p) = map_prod id strip_buttons (renderPunchList p)
   \<and> punchForm_submit_simple D (strip_buttons p) = map_prod id strip_buttons (punchForm_submit D p)
   \<and> exportBtn_click_simple (strip_buttons p) = map_prod id strip_buttons (exportBtn_click p)
   \<and> punchData (strip_buttons q) = punchData q
   \<and> punchInput_value (strip_buttons q) = punchInput_value q
   \<and> alerts (strip_buttons q) = alerts q
   \<and> downloads (strip_buttons q) = downloads q
   \<and> map li_innerHTML (punchList (strip_buttons q)) = map li_innerHTML (punchList q)"
  by (simp add: getPunchData_strip savePunchData_strip renderPunchList_strip punchForm_submit_strip
      exportBtn_click_strip)
     (simp add: strip_buttons_def comp_def)

theorem variants_agree_witness:
  "renderPunchList_simple page_AB = map_prod id strip_buttons (renderPunchList page_AB)
   \<and> punchForm_submit_simple (js ''D3'') page_AB =
       map_prod id strip_buttons (punchForm_submit (js ''D3'') page_AB)
   \<and> exportBtn_click_simple page_AB = map_prod id strip_buttons (exportBtn_click page_AB)
   \<and> map li_innerHTML (punchList (snd (renderPunchList_simple page_AB))) =
       map li_innerHTML (punchList (snd (renderPunchList page_AB)))
   \<and> map li_innerHTML (punchList (snd (renderPunchList page_AB))) =
       [entry_markup entry_B, entry_markup entry_A]
   \<and> punchData (snd (renderPunchList_simple page_AB)) = punchData (snd (renderPunchList page_AB))"
proof -
  have s: "strip_buttons page_AB = page_AB"
    by (simp add: strip_buttons_def page_AB_def blank_page_def)
  have r: "map li_innerHTML (punchList (snd (renderPunchList page_AB))) =
      [entry_markup entry_B, entry_markup entry_A]"
    by (simp add: renderPunchList_log [OF getPunchData_page_AB] rendered_row_def)
  show ?thesis
    using variants_agree [of page_AB _ "js ''D3''" "snd (renderPunchList page_AB)"] r
    by (simp add: s)
qed

text \<open>
  C10. In both variants, when the value stored under the key is the empty string, which
  is present but is not JSON, \<open>getPunchData\<close> returns the empty list and raises no
  parse error: the guard takes the empty string for an absent value.
\<close>

theorem empty_string_loads_empty:
  "getPunchData (p\<lparr>punchData := Some []\<rparr>) = Inr (JArr [])
   \<and> getPunchData_simple (p\<lparr>punchData := Some []\<rparr>) = Inr (JArr [])
   \<and> JSON_parse [] = Inl SyntaxError"
  by (simp add: getPunchData_def getPunchData_simple_def JSON_parse_def skip_ws_def)

theorem empty_string_loads_empty_witness:
  "getPunchData (blank_page\<lparr>punchData := Some []\<rparr>) = Inr (JArr [])
   \<and> getPunchData_simple (blank_page\<lparr>punchData := Some []\<rparr>) = Inr (JArr [])
   \<and> JSON_parse [] = Inl SyntaxError"
  by (rule empty_string_loads_empty)

end
